theory Spec2Isabelle
  imports Main "HOL-Library.Word"
begin

section \<open>The Arduino core, as far as the sketches use it\<close>

text \<open>
  The sketches run on an AVR board: \<open>int\<close> is 16 bits, \<open>long\<close> is 32 bits,
  \<open>unsigned long\<close> (the type of \<open>millis()\<close>) is 32 bits without sign, \<open>byte\<close>
  is 8 bits. Signed values are modelled as \<open>int\<close> with the conversion to the
  variable's width written out (\<open>to_int\<close>, \<open>to_long\<close>); unsigned long values are
  \<open>32 word\<close>, whose subtraction wraps as the hardware's does.
\<close>

type_synonym byte = "8 word"
type_synonym ulong = "32 word"

definition to_int :: "int \<Rightarrow> int" where
  "to_int x = (x + 32768) mod 65536 - 32768"

definition to_long :: "int \<Rightarrow> int" where
  "to_long x = (x + 2147483648) mod 4294967296 - 2147483648"

text \<open>C's integer division truncates towards zero.\<close>

definition c_div :: "int \<Rightarrow> int \<Rightarrow> int" where
  "c_div a b = sgn a * sgn b * (\<bar>a\<bar> div \<bar>b\<bar>)"

text \<open>
  Dividing by zero is undefined behaviour in C. The model makes it a value: a function
  that can reach such a division returns \<open>Inl DivisionByZero\<close>.
\<close>

datatype fault = DivisionByZero

text \<open>
  \<^verbatim>\<open>long map(long x, long in_min, long in_max, long out_min, long out_max) {
    return (x - in_min) * (out_max - out_min) / (in_max - in_min) + out_min; }\<close>
\<close>

definition map_long :: "int \<Rightarrow> int \<Rightarrow> int \<Rightarrow> int \<Rightarrow> int \<Rightarrow> fault + int" where
  "map_long x in_min in_max out_min out_max =
     (if to_long (in_max - in_min) = 0 then Inl DivisionByZero
      else Inr (to_long (c_div (to_long (to_long (x - in_min) * to_long (out_max - out_min)))
                               (to_long (in_max - in_min)) + out_min)))"

text \<open>\<^verbatim>\<open>#define constrain(amt,low,high) ((amt)<(low)?(low):((amt)>(high)?(high):(amt)))\<close>\<close>

definition constrain :: "int \<Rightarrow> int \<Rightarrow> int \<Rightarrow> int" where
  "constrain amt low high = (if amt < low then low else if amt > high then high else amt)"

text \<open>\<open>lowByte(w)\<close> is \<open>(uint8_t)(w & 0xff)\<close>, \<open>highByte(w)\<close> is \<open>(uint8_t)(w >> 8)\<close>,
  and \<open>word(h, l)\<close> is \<open>(h << 8) | l\<close> as an unsigned 16-bit value; the sketches store it
  in an \<open>int\<close>.\<close>

definition lowByte :: "int \<Rightarrow> byte" where
  "lowByte w = word_of_int w"

definition highByte :: "int \<Rightarrow> byte" where
  "highByte w = word_of_int (w div 256)"

definition makeWord :: "byte \<Rightarrow> byte \<Rightarrow> int" where
  "makeWord h l = to_int (uint h * 256 + uint l)"

subsection \<open>Characters and the String class\<close>

definition isspace :: "char \<Rightarrow> bool" where
  "isspace c = (c = CHR '' '' \<or> (9 \<le> (of_char c :: nat) \<and> (of_char c :: nat) \<le> 13))"

definition isdigit :: "char \<Rightarrow> bool" where
  "isdigit c = (48 \<le> (of_char c :: nat) \<and> (of_char c :: nat) \<le> 57)"

text \<open>For a lower-case ASCII letter, \<open>c - 'a' + 'A'\<close> clears the bit of value 32.\<close>

definition toupper :: "char \<Rightarrow> char" where
  "toupper c =
     (if 97 \<le> (of_char c :: nat) \<and> (of_char c :: nat) \<le> 122
      then (case c of Char b0 b1 b2 b3 b4 b5 b6 b7 \<Rightarrow> Char b0 b1 b2 b3 b4 False b6 b7)
      else c)"

definition trim :: "string \<Rightarrow> string" where
  "trim s = rev (dropWhile isspace (rev (dropWhile isspace s)))"

definition toUpperCase :: "string \<Rightarrow> string" where
  "toUpperCase s = map toupper s"

definition indexOf :: "char \<Rightarrow> string \<Rightarrow> int" where
  "indexOf c s = (if c \<in> set s then int (length (takeWhile (\<lambda>x. x \<noteq> c) s)) else - 1)"

definition substring :: "string \<Rightarrow> nat \<Rightarrow> nat \<Rightarrow> string" where
  "substring s left right =
     (if left > right then take (left - right) (drop right s)
      else take (right - left) (drop left s))"

definition substring_from :: "string \<Rightarrow> nat \<Rightarrow> string" where
  "substring_from s left = drop left s"

text \<open>\<open>String::toInt\<close> is \<open>atol\<close>: leading white space, an optional sign, then the
  digits; what follows the digits is ignored; no digits give 0.\<close>

fun atol_digits :: "string \<Rightarrow> int \<Rightarrow> int" where
  "atol_digits [] acc = acc"
| "atol_digits (c # cs) acc =
     (if isdigit c then atol_digits cs (acc * 10 + (int (of_char c) - 48)) else acc)"

definition toInt :: "string \<Rightarrow> int" where
  "toInt s =
     (case dropWhile isspace s of
        [] \<Rightarrow> 0
      | c # cs \<Rightarrow>
          if c = CHR ''-'' then to_long (- atol_digits cs 0)
          else if c = CHR ''+'' then to_long (atol_digits cs 0)
          else to_long (atol_digits (c # cs) 0))"

text \<open>\<open>Serial.print\<close> of a number writes its decimal digits; \<open>show_digits\<close> is
  only applied to numbers that are not negative.\<close>

function show_digits :: "int \<Rightarrow> string" where
  "show_digits n =
     (if n < 10 then [''0123456789'' ! nat n]
      else show_digits (n div 10) @ [''0123456789'' ! nat (n mod 10)])"
  by pat_completeness auto
termination
  by (relation "measure nat") auto

declare show_digits.simps [simp del]

definition show_int :: "int \<Rightarrow> string" where
  "show_int i = (if i < 0 then CHR ''-'' # show_digits (- i) else show_digits i)"

definition crlf :: string where
  "crlf = [CHR 0x0D, CHR 0x0A]"

section \<open>State\<close>

text \<open>
  The sketches keep their state in global variables. The board's side of it (what has
  been written to the serial port, the drive value last written to the motor pin, the
  EEPROM) comes first; then the globals all three curtain sketches share; then the
  globals of the two sketches with a motor state machine; then what each sketch adds.
\<close>

record board =
  serialOut :: string
  motorPin :: int
  eeprom :: "nat \<Rightarrow> byte"

record sketch = board +
  lightReadings :: "int list"
  lightReadIndex :: nat
  lightTotal :: int
  lightAverage :: int
  lastLightRead :: ulong
  lastStatusReport :: ulong
  commandBuffer :: string

datatype MotorState = MOTOR_STOPPED | MOTOR_OPENING | MOTOR_CLOSING

datatype CurtainPosition = POSITION_UNKNOWN | POSITION_OPEN | POSITION_CLOSED | POSITION_PARTIAL

record curtain = sketch +
  lightMin :: int
  lightMax :: int
  isCalibrated :: bool
  motorState :: MotorState
  curtainPosition :: CurtainPosition
  motorStartTime :: ulong

text \<open>Version 2.3 (light-controlled speed, timed manual moves), in
  \<open>curtain_control.ino\<close>.\<close>

record manual = sketch +
  currentLightRaw :: int
  openThreshold :: int
  closeThreshold :: int
  currentMotorSpeed :: int
  autoMode :: bool
  manualMode :: bool
  manualMotorSpeed :: int
  manualStartTime :: ulong
  manualOperationActive :: bool
  manualOpenOperation :: bool

text \<open>Version 2.0 (direction pin), \<open>arduino_curtain_enhanced.ino\<close>.\<close>

record directional = curtain +
  motorSpeed :: int
  motorDirPin :: bool

text \<open>Version 2.1 (spinning motor), in \<open>curtain_control.ino\<close>.\<close>

record spinning = curtain +
  currentMotorSpeed :: int

text \<open>
  What the hardware answers while one pass of \<open>loop()\<close> runs: the value of
  \<open>millis()\<close> inside the command handlers, the value of \<open>analogRead\<close> on the
  light sensor, and the readings the calibration routine takes during its ten seconds
  (its loop runs while \<open>millis()\<close> stays below the deadline, so the hardware decides
  how many there are).
\<close>

record env =
  millis :: ulong
  analogRead :: int
  calibrationReadings :: "int list"

definition env_ok :: "env \<Rightarrow> bool" where
  "env_ok e = (0 \<le> analogRead e \<and> analogRead e \<le> 1023 \<and> calibrationReadings e \<noteq> [] \<and>
     list_all (\<lambda>r. 0 \<le> r \<and> r \<le> 1023) (calibrationReadings e))"

section \<open>What the sketches share\<close>

definition Serial_print :: "string \<Rightarrow> 'a board_scheme \<Rightarrow> 'a board_scheme" where
  "Serial_print x s = s\<lparr>serialOut := serialOut s @ x\<rparr>"

definition Serial_println :: "string \<Rightarrow> 'a board_scheme \<Rightarrow> 'a board_scheme" where
  "Serial_println x s = s\<lparr>serialOut := serialOut s @ x @ crlf\<rparr>"

text \<open>\<open>analogWrite\<close> and \<open>digitalWrite\<close> are only ever called on the motor pin (and,
  in version 2.0, \<open>digitalWrite\<close> on the direction pin, modelled where it is used).\<close>

definition analogWrite :: "int \<Rightarrow> 'a board_scheme \<Rightarrow> 'a board_scheme" where
  "analogWrite v s = s\<lparr>motorPin := v\<rparr>"

definition EEPROM_write :: "nat \<Rightarrow> byte \<Rightarrow> 'a board_scheme \<Rightarrow> 'a board_scheme" where
  "EEPROM_write addr v s = s\<lparr>eeprom := (eeprom s)(addr := v)\<rparr>"

definition MAX_COMMAND_LENGTH :: nat where
  "MAX_COMMAND_LENGTH = 64"

definition LIGHT_READ_INTERVAL :: ulong where
  "LIGHT_READ_INTERVAL = 500"

definition STATUS_REPORT_INTERVAL :: ulong where
  "STATUS_REPORT_INTERVAL = 5000"

definition MOTOR_TIMEOUT :: ulong where
  "MOTOR_TIMEOUT = 30000"

definition LIGHT_SAMPLES :: nat where
  "LIGHT_SAMPLES = 10"

definition LIGHT_MIN_DEFAULT :: int where
  "LIGHT_MIN_DEFAULT = 50"

definition LIGHT_MAX_DEFAULT :: int where
  "LIGHT_MAX_DEFAULT = 950"

definition EEPROM_ADDR_MIN_LIGHT :: nat where
  "EEPROM_ADDR_MIN_LIGHT = 0"

definition EEPROM_ADDR_MAX_LIGHT :: nat where
  "EEPROM_ADDR_MAX_LIGHT = 2"

definition EEPROM_ADDR_CALIBRATED :: nat where
  "EEPROM_ADDR_CALIBRATED = 4"

definition EEPROM_MAGIC_NUMBER :: byte where
  "EEPROM_MAGIC_NUMBER = 0xAB"

subsection \<open>Light sensor (versions 2.0 and 2.1, the same text in both)\<close>

text \<open>The sample read by \<open>analogRead(LIGHT_SENSOR_PIN)\<close> is the first argument. The
  index is only ever \<open>0\<close> or the result of \<open>% LIGHT_SAMPLES\<close>, so it is a \<open>nat\<close>.\<close>

definition readLightSensor :: "int \<Rightarrow> 'a sketch_scheme \<Rightarrow> 'a sketch_scheme" where
  "readLightSensor reading s =
     (let s1 = s\<lparr>lightTotal := to_int (lightTotal s - lightReadings s ! lightReadIndex s)\<rparr>;
          s2 = s1\<lparr>lightReadings := (lightReadings s1)[lightReadIndex s1 := reading]\<rparr>;
          s3 = s2\<lparr>lightTotal := to_int (lightTotal s2 + lightReadings s2 ! lightReadIndex s2)\<rparr>;
          s4 = s3\<lparr>lightReadIndex := (lightReadIndex s3 + 1) mod LIGHT_SAMPLES\<rparr>;
          s5 = s4\<lparr>lightAverage := c_div (lightTotal s4) (int LIGHT_SAMPLES)\<rparr>
      in Serial_println (show_int (lightAverage s5)) (Serial_print ''LIGHT:'' s5))"

definition getPercentageLight :: "'a curtain_scheme \<Rightarrow> fault + int" where
  "getPercentageLight s =
     (if \<not> isCalibrated s then
        (case map_long (lightAverage s) 0 1023 0 100 of
           Inl f \<Rightarrow> Inl f
         | Inr r \<Rightarrow> Inr (to_int r))
      else
        (case map_long (lightAverage s) (lightMin s) (lightMax s) 0 100 of
           Inl f \<Rightarrow> Inl f
         | Inr r \<Rightarrow> Inr (constrain (to_int r) 0 100)))"

subsection \<open>Calibration and its persistence (versions 2.0 and 2.1, the same text in both)\<close>

text \<open>Writing to the EEPROM changes no global either: the bytes written are those of the
  bounds the function was entered with.\<close>

definition saveCalibration :: "'a curtain_scheme \<Rightarrow> 'a curtain_scheme" where
  "saveCalibration s =
     (let s1 = EEPROM_write EEPROM_ADDR_CALIBRATED EEPROM_MAGIC_NUMBER s;
          s2 = EEPROM_write EEPROM_ADDR_MIN_LIGHT (lowByte (lightMin s)) s1;
          s3 = EEPROM_write (EEPROM_ADDR_MIN_LIGHT + 1) (highByte (lightMin s)) s2;
          s4 = EEPROM_write EEPROM_ADDR_MAX_LIGHT (lowByte (lightMax s)) s3;
          s5 = EEPROM_write (EEPROM_ADDR_MAX_LIGHT + 1) (highByte (lightMax s)) s4
      in Serial_println ''CALIBRATION:SAVED'' (s5\<lparr>isCalibrated := True\<rparr>))"

definition loadCalibration :: "'a curtain_scheme \<Rightarrow> 'a curtain_scheme" where
  "loadCalibration s =
     (let magic = eeprom s EEPROM_ADDR_CALIBRATED in
      if magic = EEPROM_MAGIC_NUMBER then
        (let s1 = s\<lparr>lightMin := makeWord (eeprom s (EEPROM_ADDR_MIN_LIGHT + 1))
                                          (eeprom s EEPROM_ADDR_MIN_LIGHT)\<rparr>;
             s2 = s1\<lparr>lightMax := makeWord (eeprom s (EEPROM_ADDR_MAX_LIGHT + 1))
                                            (eeprom s EEPROM_ADDR_MAX_LIGHT)\<rparr>
         in Serial_println ''CALIBRATION:LOADED'' (s2\<lparr>isCalibrated := True\<rparr>))
      else (Serial_println ''CALIBRATION:NOT_FOUND'' s)\<lparr>isCalibrated := False\<rparr>)"

definition resetCalibration :: "'a curtain_scheme \<Rightarrow> 'a curtain_scheme" where
  "resetCalibration s =
     (let s1 = s\<lparr>lightMin := LIGHT_MIN_DEFAULT\<rparr>;
          s2 = s1\<lparr>lightMax := LIGHT_MAX_DEFAULT\<rparr>;
          s3 = s2\<lparr>isCalibrated := False\<rparr>;
          s4 = EEPROM_write EEPROM_ADDR_CALIBRATED 0 s3
      in Serial_println ''CALIBRATION:RESET'' s4)"

text \<open>One pass of the body of the calibration loop, for each reading taken.\<close>

fun calibration_loop :: "int list \<Rightarrow> 'a curtain_scheme \<Rightarrow> 'a curtain_scheme" where
  "calibration_loop [] s = s"
| "calibration_loop (reading # rest) s =
     (let s1 = (if reading < lightMin s
                then Serial_println (show_int reading)
                       (Serial_print ''CALIBRATION:MIN_UPDATE:'' (s\<lparr>lightMin := reading\<rparr>))
                else s);
          s2 = (if reading > lightMax s1
                then Serial_println (show_int reading)
                       (Serial_print ''CALIBRATION:MAX_UPDATE:'' (s1\<lparr>lightMax := reading\<rparr>))
                else s1)
      in calibration_loop rest s2)"

definition startCalibration :: "env \<Rightarrow> 'a curtain_scheme \<Rightarrow> 'a curtain_scheme" where
  "startCalibration e s =
     (let s1 = Serial_println ''CALIBRATION:STARTED'' s;
          s2 = Serial_println ''STATUS:Move sensor between darkest and brightest positions'' s1;
          s3 = s2\<lparr>lightMin := 1023\<rparr>;
          s4 = s3\<lparr>lightMax := 0\<rparr>;
          s5 = calibration_loop (calibrationReadings e) s4;
          s6 = s5\<lparr>lightMin := max 0 (to_int (lightMin s5 - 10))\<rparr>;
          s7 = s6\<lparr>lightMax := min 1023 (to_int (lightMax s6 + 10))\<rparr>;
          s8 = saveCalibration s7;
          s9 = Serial_print ''CALIBRATION:COMPLETE,MIN:'' s8;
          s10 = Serial_print (show_int (lightMin s7)) s9;
          s11 = Serial_print '',MAX:'' s10
      in Serial_println (show_int (lightMax s7)) s11)"

section \<open>Version 2.1: the spinning-motor sketch\<close>

definition MOTOR_SPEED_OPENING :: int where
  "MOTOR_SPEED_OPENING = 255"

definition MOTOR_SPEED_CLOSING :: int where
  "MOTOR_SPEED_CLOSING = 128"

definition MOTOR_SPEED_STOPPED :: int where
  "MOTOR_SPEED_STOPPED = 0"

definition openCurtain :: "env \<Rightarrow> spinning \<Rightarrow> spinning" where
  "openCurtain e s =
     (if curtainPosition s = POSITION_OPEN then Serial_println ''STATUS:Already open'' s
      else
        (let s1 = analogWrite MOTOR_SPEED_OPENING s;
             s2 = s1\<lparr>currentMotorSpeed := MOTOR_SPEED_OPENING\<rparr>;
             s3 = s2\<lparr>motorState := MOTOR_OPENING\<rparr>;
             s4 = s3\<lparr>motorStartTime := millis e\<rparr>;
             s5 = s4\<lparr>curtainPosition := POSITION_PARTIAL\<rparr>;
             s6 = Serial_print ''MOTOR:OPENING at speed '' s5;
             s7 = Serial_println (show_int MOTOR_SPEED_OPENING) s6
         in Serial_println ''POSITION:OPENING'' s7))"

definition closeCurtain :: "env \<Rightarrow> spinning \<Rightarrow> spinning" where
  "closeCurtain e s =
     (if curtainPosition s = POSITION_CLOSED then Serial_println ''STATUS:Already closed'' s
      else
        (let s1 = analogWrite MOTOR_SPEED_CLOSING s;
             s2 = s1\<lparr>currentMotorSpeed := MOTOR_SPEED_CLOSING\<rparr>;
             s3 = s2\<lparr>motorState := MOTOR_CLOSING\<rparr>;
             s4 = s3\<lparr>motorStartTime := millis e\<rparr>;
             s5 = s4\<lparr>curtainPosition := POSITION_PARTIAL\<rparr>;
             s6 = Serial_print ''MOTOR:CLOSING at speed '' s5;
             s7 = Serial_println (show_int MOTOR_SPEED_CLOSING) s6
         in Serial_println ''POSITION:CLOSING'' s7))"

definition stopMotor :: "spinning \<Rightarrow> spinning" where
  "stopMotor s =
     (let previousState = motorState s;
          s1 = analogWrite 0 s;
          s2 = s1\<lparr>currentMotorSpeed := MOTOR_SPEED_STOPPED\<rparr>;
          s3 = s2\<lparr>motorState := MOTOR_STOPPED\<rparr>;
          s4 = Serial_println ''MOTOR:STOPPED'' s3
      in if previousState = MOTOR_OPENING
         then Serial_println ''POSITION:OPEN'' (s4\<lparr>curtainPosition := POSITION_OPEN\<rparr>)
         else if previousState = MOTOR_CLOSING
         then Serial_println ''POSITION:CLOSED'' (s4\<lparr>curtainPosition := POSITION_CLOSED\<rparr>)
         else s4)"

text \<open>The map's input range here is the constant 0 to 100, so its division cannot be by
  zero; the \<open>Inl\<close> branch of \<open>map_long\<close> is kept all the same.\<close>

definition setMotorSpeed :: "int \<Rightarrow> spinning \<Rightarrow> fault + spinning" where
  "setMotorSpeed speedPercent s =
     (case map_long (constrain speedPercent 0 100) 0 100 0 255 of
        Inl f \<Rightarrow> Inl f
      | Inr r \<Rightarrow>
          (let pwmValue = to_int r;
               s1 = Serial_print ''MOTOR_SPEED_SET:'' s;
               s2 = Serial_print (show_int speedPercent) s1;
               s3 = Serial_print ''% (PWM:'' s2;
               s4 = Serial_print (show_int pwmValue) s3;
               s5 = Serial_println '')'' s4
           in if motorState s5 = MOTOR_OPENING
              then Inr (analogWrite pwmValue (s5\<lparr>currentMotorSpeed := pwmValue\<rparr>))
              else if motorState s5 = MOTOR_CLOSING
              then (let s6 = s5\<lparr>currentMotorSpeed := c_div pwmValue 2\<rparr>
                    in Inr (analogWrite (currentMotorSpeed s6) s6))
              else Inr (Serial_println ''STATUS:Motor stopped - use OPEN/CLOSE first'' s5)))"

text \<open>Printing changes no global of the sketch, so in a run of \<open>Serial.print\<close> calls
  the values printed are read from the state the function was entered with.\<close>

definition sendStatusReport :: "env \<Rightarrow> spinning \<Rightarrow> fault + spinning" where
  "sendStatusReport e s =
     (let s1 = Serial_println ''STATUS:REPORT_START'' s;
          s2 = Serial_print ''LIGHT:'' s1;
          s3 = Serial_println (show_int (lightAverage s)) s2;
          s4 = Serial_print ''LIGHT_PERCENT:'' s3
      in case getPercentageLight s of
           Inl f \<Rightarrow> Inl f
         | Inr percentage \<Rightarrow>
            (let s5 = Serial_println (show_int percentage) s4;
                 s6 = Serial_print ''LIGHT_RAW:'' s5;
                 s7 = Serial_println (show_int (analogRead e)) s6;
                 s8 = Serial_print ''MOTOR:'' s7;
                 s9 = Serial_println (case motorState s of
                         MOTOR_STOPPED \<Rightarrow> ''STOPPED''
                       | MOTOR_OPENING \<Rightarrow> ''OPENING''
                       | MOTOR_CLOSING \<Rightarrow> ''CLOSING'') s8;
                 s10 = Serial_print ''MOTOR_SPEED:'' s9;
                 s11 = Serial_println (show_int (currentMotorSpeed s)) s10;
                 s12 = Serial_print ''POSITION:'' s11;
                 s13 = Serial_println (case curtainPosition s of
                          POSITION_UNKNOWN \<Rightarrow> ''UNKNOWN''
                        | POSITION_OPEN \<Rightarrow> ''OPEN''
                        | POSITION_CLOSED \<Rightarrow> ''CLOSED''
                        | POSITION_PARTIAL \<Rightarrow> ''PARTIAL'') s12;
                 s14 = Serial_print ''CALIBRATION:'' s13;
                 s15 = Serial_print (if isCalibrated s then ''YES'' else ''NO'') s14;
                 s16 = Serial_print '',MIN:'' s15;
                 s17 = Serial_print (show_int (lightMin s)) s16;
                 s18 = Serial_print '',MAX:'' s17;
                 s19 = Serial_println (show_int (lightMax s)) s18;
                 s20 = Serial_print ''UPTIME:'' s19;
                 s21 = Serial_println (show_digits (uint (millis e))) s20
             in Inr (Serial_println ''STATUS:REPORT_END'' s21)))"

definition testMotor :: "spinning \<Rightarrow> spinning" where
  "testMotor s =
     (let s1 = Serial_println ''TEST:MOTOR_START'' s;
          s2 = Serial_println ''TEST:Testing fast speed (opening)...'' s1;
          s3 = analogWrite MOTOR_SPEED_OPENING s2;
          s4 = Serial_println ''TEST:Testing slow speed (closing)...'' s3;
          s5 = analogWrite MOTOR_SPEED_CLOSING s4;
          s6 = Serial_println ''TEST:Stopping motor...'' s5;
          s7 = analogWrite 0 s6
      in Serial_println ''TEST:MOTOR_COMPLETE'' s7)"

definition processCommand :: "env \<Rightarrow> string \<Rightarrow> spinning \<Rightarrow> fault + spinning" where
  "processCommand e command0 s =
     (let command = toUpperCase (trim command0);
          colonPos = indexOf (CHR '':'') command;
          cmd = (if colonPos > 0 then substring command 0 (nat colonPos) else command);
          params = (if colonPos > 0 then substring_from command (nat (colonPos + 1)) else [])
      in if cmd = ''OPEN_CURTAIN'' \<or> cmd = ''OPEN'' then Inr (openCurtain e s)
         else if cmd = ''CLOSE_CURTAIN'' \<or> cmd = ''CLOSE'' then Inr (closeCurtain e s)
         else if cmd = ''STOP_MOTOR'' \<or> cmd = ''STOP'' then Inr (stopMotor s)
         else if cmd = ''READ_LIGHT'' then
           (let s1 = Serial_print ''LIGHT:'' s;
                s2 = Serial_println (show_int (lightAverage s)) s1;
                s3 = Serial_print ''LIGHT_PERCENT:'' s2
            in case getPercentageLight s of
                 Inl f \<Rightarrow> Inl f
               | Inr percentage \<Rightarrow>
                  (let s4 = Serial_println (show_int percentage) s3;
                       s5 = Serial_print ''LIGHT_RAW:'' s4
                   in Inr (Serial_println (show_int (analogRead e)) s5)))
         else if cmd = ''GET_STATUS'' then sendStatusReport e s
         else if cmd = ''CALIBRATE_LIGHT'' \<or> cmd = ''CALIBRATE'' then Inr (startCalibration e s)
         else if cmd = ''RESET_CALIBRATION'' then Inr (resetCalibration s)
         else if cmd = ''SET_SPEED'' then
           (if length params > 0 then setMotorSpeed (to_int (toInt params)) s
            else Inr (Serial_println ''ERROR:MISSING_SPEED_PARAMETER'' s))
         else if cmd = ''TEST_MOTOR'' then Inr (testMotor s)
         else if cmd = ''PING'' then Inr (Serial_println ''PONG'' s)
         else if cmd = ''VERSION'' then Inr (Serial_println ''VERSION:2.1-SPINNING'' s)
         else Inr (Serial_println cmd (Serial_print ''ERROR:UNKNOWN_COMMAND:'' s)))"

text \<open>The bytes waiting on the serial port are the second argument; the loop reads them
  one by one until none is left.\<close>

fun processSerialCommands :: "env \<Rightarrow> string \<Rightarrow> spinning \<Rightarrow> fault + spinning" where
  "processSerialCommands e [] s = Inr s"
| "processSerialCommands e (inChar # rest) s =
     (if inChar = CHR 0x0A \<or> inChar = CHR 0x0D then
        (if length (commandBuffer s) > 0 then
           (case processCommand e (commandBuffer s) s of
              Inl f \<Rightarrow> Inl f
            | Inr s1 \<Rightarrow> processSerialCommands e rest (s1\<lparr>commandBuffer := []\<rparr>))
         else processSerialCommands e rest s)
      else if length (commandBuffer s) < MAX_COMMAND_LENGTH
      then processSerialCommands e rest (s\<lparr>commandBuffer := commandBuffer s @ [inChar]\<rparr>)
      else processSerialCommands e rest s)"

text \<open>The values the globals are initialised with, on a board whose EEPROM holds \<open>rom\<close>.\<close>

definition initial :: "(nat \<Rightarrow> byte) \<Rightarrow> spinning" where
  "initial rom =
     \<lparr>serialOut = [], motorPin = 0, eeprom = rom,
      lightReadings = replicate LIGHT_SAMPLES 0, lightReadIndex = 0, lightTotal = 0,
      lightAverage = 0, lastLightRead = 0, lastStatusReport = 0, commandBuffer = [],
      lightMin = LIGHT_MIN_DEFAULT, lightMax = LIGHT_MAX_DEFAULT, isCalibrated = False,
      motorState = MOTOR_STOPPED, curtainPosition = POSITION_UNKNOWN, motorStartTime = 0,
      currentMotorSpeed = MOTOR_SPEED_STOPPED\<rparr>"

text \<open>The pre-fill loop of \<open>setup()\<close>: \<open>for (int i = 0; i < LIGHT_SAMPLES; i++)\<close>, one
  reading of the sensor per pass.\<close>

fun prefill :: "nat \<Rightarrow> int list \<Rightarrow> 'a sketch_scheme \<Rightarrow> 'a sketch_scheme" where
  "prefill i [] s = s"
| "prefill i (reading # rest) s =
     (if i < LIGHT_SAMPLES
      then prefill (i + 1) rest
             (s\<lparr>lightReadings := (lightReadings s)[i := reading],
                lightTotal := to_int (lightTotal s + reading)\<rparr>)
      else s)"

definition setup_v21 :: "(nat \<Rightarrow> byte) \<Rightarrow> int list \<Rightarrow> spinning" where
  "setup_v21 rom readings =
     (let s1 = analogWrite 0 (initial rom);
          s2 = s1\<lparr>lightReadings := replicate LIGHT_SAMPLES 0\<rparr>;
          s3 = prefill 0 readings s2;
          s4 = s3\<lparr>lightAverage := c_div (lightTotal s3) (int LIGHT_SAMPLES)\<rparr>;
          s5 = loadCalibration s4;
          s6 = Serial_println ''READY:Arduino Curtain Control v2.1 (Spinning Motor)'' s5;
          s7 = Serial_print ''CALIBRATION:'' s6;
          s8 = Serial_print (if isCalibrated s5 then ''YES'' else ''NO'') s7;
          s9 = Serial_print '',MIN:'' s8;
          s10 = Serial_print (show_int (lightMin s5)) s9;
          s11 = Serial_print '',MAX:'' s10;
          s12 = Serial_println (show_int (lightMax s5)) s11;
          s13 = Serial_print ''INITIAL_LIGHT:'' s12
      in Serial_println (show_int (lightAverage s5)) s13)"

text \<open>
  One pass of \<open>loop()\<close>, in two parts: everything up to the timeout check
  (\<open>loop_before_timeout\<close>), and the timeout check (\<open>check_motor_timeout\<close>).
  \<open>currentTime\<close> is what \<open>millis()\<close> returned at the top of the pass.
\<close>

definition loop_before_timeout :: "ulong \<Rightarrow> env \<Rightarrow> string \<Rightarrow> spinning \<Rightarrow> fault + spinning" where
  "loop_before_timeout currentTime e input s =
     (case processSerialCommands e input s of
        Inl f \<Rightarrow> Inl f
      | Inr s1 \<Rightarrow>
          (let s2 = (if currentTime - lastLightRead s1 \<ge> LIGHT_READ_INTERVAL
                     then (readLightSensor (analogRead e) s1)\<lparr>lastLightRead := currentTime\<rparr>
                     else s1)
           in if currentTime - lastStatusReport s2 \<ge> STATUS_REPORT_INTERVAL
              then (case sendStatusReport e s2 of
                      Inl f \<Rightarrow> Inl f
                    | Inr s3 \<Rightarrow> Inr (s3\<lparr>lastStatusReport := currentTime\<rparr>))
              else Inr s2))"

definition check_motor_timeout :: "ulong \<Rightarrow> spinning \<Rightarrow> spinning" where
  "check_motor_timeout currentTime s =
     (if motorState s \<noteq> MOTOR_STOPPED then
        (if currentTime - motorStartTime s \<ge> MOTOR_TIMEOUT
         then Serial_println ''ERROR:MOTOR_TIMEOUT'' (stopMotor s)
         else s)
      else s)"

definition loop :: "ulong \<Rightarrow> env \<Rightarrow> string \<Rightarrow> spinning \<Rightarrow> fault + spinning" where
  "loop currentTime e input s =
     (case loop_before_timeout currentTime e input s of
        Inl f \<Rightarrow> Inl f
      | Inr s3 \<Rightarrow> Inr (check_motor_timeout currentTime s3))"

text \<open>The states the sketch can be in: after \<open>setup()\<close>, on any EEPROM content and any ten
  sensor readings; after any pass of \<open>loop()\<close> that returns; and, inside a pass, after
  any number of the waiting bytes have been read and their commands handled (the state in
  which the next command is dispatched and in which the pass goes on to sample the sensor).\<close>

inductive reachable :: "spinning \<Rightarrow> bool" where
  boot: "length readings = LIGHT_SAMPLES \<Longrightarrow> list_all (\<lambda>r. 0 \<le> r \<and> r \<le> 1023) readings
         \<Longrightarrow> reachable (setup_v21 rom readings)"
| tick: "reachable s \<Longrightarrow> env_ok e \<Longrightarrow> loop currentTime e input s = Inr s'
         \<Longrightarrow> reachable s'"
| drain: "reachable s \<Longrightarrow> env_ok e \<Longrightarrow> processSerialCommands e input s = Inr s'
         \<Longrightarrow> reachable s'"

section \<open>Version 2.0: the sketch with a direction pin\<close>

text \<open>\<open>digitalWrite\<close> on the motor pin: \<open>LOW\<close> switches the drive off, \<open>HIGH\<close> is full
  drive.\<close>

definition digitalWrite :: "bool \<Rightarrow> 'a board_scheme \<Rightarrow> 'a board_scheme" where
  "digitalWrite high s = s\<lparr>motorPin := (if high then 255 else 0)\<rparr>"

definition openCurtain_v20 :: "env \<Rightarrow> directional \<Rightarrow> directional" where
  "openCurtain_v20 e s =
     (if curtainPosition s = POSITION_OPEN then Serial_println ''STATUS:Already open'' s
      else
        (let s1 = s\<lparr>motorDirPin := True\<rparr>;
             s2 = analogWrite (motorSpeed s1) s1;
             s3 = s2\<lparr>motorState := MOTOR_OPENING\<rparr>;
             s4 = s3\<lparr>motorStartTime := millis e\<rparr>;
             s5 = s4\<lparr>curtainPosition := POSITION_PARTIAL\<rparr>;
             s6 = Serial_println ''MOTOR:OPENING'' s5
         in Serial_println ''POSITION:OPENING'' s6))"

definition closeCurtain_v20 :: "env \<Rightarrow> directional \<Rightarrow> directional" where
  "closeCurtain_v20 e s =
     (if curtainPosition s = POSITION_CLOSED then Serial_println ''STATUS:Already closed'' s
      else
        (let s1 = s\<lparr>motorDirPin := False\<rparr>;
             s2 = analogWrite (motorSpeed s1) s1;
             s3 = s2\<lparr>motorState := MOTOR_CLOSING\<rparr>;
             s4 = s3\<lparr>motorStartTime := millis e\<rparr>;
             s5 = s4\<lparr>curtainPosition := POSITION_PARTIAL\<rparr>;
             s6 = Serial_println ''MOTOR:CLOSING'' s5
         in Serial_println ''POSITION:CLOSING'' s6))"

text \<open>This version tests \<open>motorState\<close> after it has assigned \<open>MOTOR_STOPPED\<close> to it.\<close>

definition stopMotor_v20 :: "directional \<Rightarrow> directional" where
  "stopMotor_v20 s =
     (let s1 = digitalWrite False s;
          s2 = s1\<lparr>motorState := MOTOR_STOPPED\<rparr>;
          s3 = Serial_println ''MOTOR:STOPPED'' s2
      in if motorState s3 = MOTOR_OPENING
         then Serial_println ''POSITION:OPEN'' (s3\<lparr>curtainPosition := POSITION_OPEN\<rparr>)
         else if motorState s3 = MOTOR_CLOSING
         then Serial_println ''POSITION:CLOSED'' (s3\<lparr>curtainPosition := POSITION_CLOSED\<rparr>)
         else s3)"

definition setMotorSpeed_v20 :: "int \<Rightarrow> directional \<Rightarrow> directional" where
  "setMotorSpeed_v20 speed s =
     (let s1 = s\<lparr>motorSpeed := constrain speed 0 255\<rparr>;
          s2 = Serial_print ''MOTOR_SPEED:'' s1;
          s3 = Serial_println (show_int (motorSpeed s2)) s2
      in if motorState s3 \<noteq> MOTOR_STOPPED then analogWrite (motorSpeed s3) s3 else s3)"

definition sendStatusReport_v20 :: "env \<Rightarrow> directional \<Rightarrow> fault + directional" where
  "sendStatusReport_v20 e s =
     (let s1 = Serial_println ''STATUS:REPORT_START'' s;
          s2 = Serial_print ''LIGHT:'' s1;
          s3 = Serial_println (show_int (lightAverage s)) s2;
          s4 = Serial_print ''LIGHT_PERCENT:'' s3
      in case getPercentageLight s of
           Inl f \<Rightarrow> Inl f
         | Inr percentage \<Rightarrow>
            (let s5 = Serial_println (show_int percentage) s4;
                 s8 = Serial_print ''MOTOR:'' s5;
                 s9 = Serial_println (case motorState s of
                         MOTOR_STOPPED \<Rightarrow> ''STOPPED''
                       | MOTOR_OPENING \<Rightarrow> ''OPENING''
                       | MOTOR_CLOSING \<Rightarrow> ''CLOSING'') s8;
                 s12 = Serial_print ''POSITION:'' s9;
                 s13 = Serial_println (case curtainPosition s of
                          POSITION_UNKNOWN \<Rightarrow> ''UNKNOWN''
                        | POSITION_OPEN \<Rightarrow> ''OPEN''
                        | POSITION_CLOSED \<Rightarrow> ''CLOSED''
                        | POSITION_PARTIAL \<Rightarrow> ''PARTIAL'') s12;
                 s14 = Serial_print ''CALIBRATION:'' s13;
                 s15 = Serial_print (if isCalibrated s then ''YES'' else ''NO'') s14;
                 s16 = Serial_print '',MIN:'' s15;
                 s17 = Serial_print (show_int (lightMin s)) s16;
                 s18 = Serial_print '',MAX:'' s17;
                 s19 = Serial_println (show_int (lightMax s)) s18;
                 s20 = Serial_print ''UPTIME:'' s19;
                 s21 = Serial_println (show_digits (uint (millis e))) s20
             in Inr (Serial_println ''STATUS:REPORT_END'' s21)))"

definition processCommand_v20 :: "env \<Rightarrow> string \<Rightarrow> directional \<Rightarrow> fault + directional" where
  "processCommand_v20 e command0 s =
     (let command = toUpperCase (trim command0);
          colonPos = indexOf (CHR '':'') command;
          cmd = (if colonPos > 0 then substring command 0 (nat colonPos) else command);
          params = (if colonPos > 0 then substring_from command (nat (colonPos + 1)) else [])
      in if cmd = ''OPEN_CURTAIN'' \<or> cmd = ''OPEN'' then Inr (openCurtain_v20 e s)
         else if cmd = ''CLOSE_CURTAIN'' \<or> cmd = ''CLOSE'' then Inr (closeCurtain_v20 e s)
         else if cmd = ''STOP_MOTOR'' \<or> cmd = ''STOP'' then Inr (stopMotor_v20 s)
         else if cmd = ''READ_LIGHT'' then
           (let s1 = Serial_print ''LIGHT:'' s;
                s2 = Serial_println (show_int (lightAverage s)) s1;
                s3 = Serial_print ''LIGHT_PERCENT:'' s2
            in case getPercentageLight s of
                 Inl f \<Rightarrow> Inl f
               | Inr percentage \<Rightarrow> Inr (Serial_println (show_int percentage) s3))
         else if cmd = ''GET_STATUS'' then sendStatusReport_v20 e s
         else if cmd = ''CALIBRATE_LIGHT'' \<or> cmd = ''CALIBRATE'' then Inr (startCalibration e s)
         else if cmd = ''RESET_CALIBRATION'' then Inr (resetCalibration s)
         else if cmd = ''SET_SPEED'' then
           (if length params > 0 then
              (case map_long (to_int (toInt params)) 0 100 0 255 of
                 Inl f \<Rightarrow> Inl f
               | Inr r \<Rightarrow> Inr (setMotorSpeed_v20 (to_int r) s))
            else Inr (Serial_println ''ERROR:MISSING_SPEED_PARAMETER'' s))
         else if cmd = ''PING'' then Inr (Serial_println ''PONG'' s)
         else if cmd = ''VERSION'' then Inr (Serial_println ''VERSION:2.0'' s)
         else Inr (Serial_println cmd (Serial_print ''ERROR:UNKNOWN_COMMAND:'' s)))"

fun processSerialCommands_v20 :: "env \<Rightarrow> string \<Rightarrow> directional \<Rightarrow> fault + directional" where
  "processSerialCommands_v20 e [] s = Inr s"
| "processSerialCommands_v20 e (inChar # rest) s =
     (if inChar = CHR 0x0A \<or> inChar = CHR 0x0D then
        (if length (commandBuffer s) > 0 then
           (case processCommand_v20 e (commandBuffer s) s of
              Inl f \<Rightarrow> Inl f
            | Inr s1 \<Rightarrow> processSerialCommands_v20 e rest (s1\<lparr>commandBuffer := []\<rparr>))
         else processSerialCommands_v20 e rest s)
      else if length (commandBuffer s) < MAX_COMMAND_LENGTH
      then processSerialCommands_v20 e rest (s\<lparr>commandBuffer := commandBuffer s @ [inChar]\<rparr>)
      else processSerialCommands_v20 e rest s)"

definition initial_v20 :: "(nat \<Rightarrow> byte) \<Rightarrow> directional" where
  "initial_v20 rom =
     \<lparr>serialOut = [], motorPin = 0, eeprom = rom,
      lightReadings = replicate LIGHT_SAMPLES 0, lightReadIndex = 0, lightTotal = 0,
      lightAverage = 0, lastLightRead = 0, lastStatusReport = 0, commandBuffer = [],
      lightMin = LIGHT_MIN_DEFAULT, lightMax = LIGHT_MAX_DEFAULT, isCalibrated = False,
      motorState = MOTOR_STOPPED, curtainPosition = POSITION_UNKNOWN, motorStartTime = 0,
      motorSpeed = 255, motorDirPin = False\<rparr>"

text \<open>This version's \<open>setup()\<close> zeroes the sample buffer and takes no reading.\<close>

definition setup_v20 :: "(nat \<Rightarrow> byte) \<Rightarrow> directional" where
  "setup_v20 rom =
     (let s1 = digitalWrite False (initial_v20 rom);
          s2 = s1\<lparr>motorDirPin := False\<rparr>;
          s3 = s2\<lparr>lightReadings := replicate LIGHT_SAMPLES 0\<rparr>;
          s5 = loadCalibration s3;
          s6 = Serial_println ''READY:Arduino Curtain Control v2.0'' s5;
          s7 = Serial_print ''CALIBRATION:'' s6;
          s8 = Serial_print (if isCalibrated s5 then ''YES'' else ''NO'') s7;
          s9 = Serial_print '',MIN:'' s8;
          s10 = Serial_print (show_int (lightMin s5)) s9;
          s11 = Serial_print '',MAX:'' s10
      in Serial_println (show_int (lightMax s5)) s11)"

definition loop_before_timeout_v20 ::
  "ulong \<Rightarrow> env \<Rightarrow> string \<Rightarrow> directional \<Rightarrow> fault + directional" where
  "loop_before_timeout_v20 currentTime e input s =
     (case processSerialCommands_v20 e input s of
        Inl f \<Rightarrow> Inl f
      | Inr s1 \<Rightarrow>
          (let s2 = (if currentTime - lastLightRead s1 \<ge> LIGHT_READ_INTERVAL
                     then (readLightSensor (analogRead e) s1)\<lparr>lastLightRead := currentTime\<rparr>
                     else s1)
           in if currentTime - lastStatusReport s2 \<ge> STATUS_REPORT_INTERVAL
              then (case sendStatusReport_v20 e s2 of
                      Inl f \<Rightarrow> Inl f
                    | Inr s3 \<Rightarrow> Inr (s3\<lparr>lastStatusReport := currentTime\<rparr>))
              else Inr s2))"

definition check_motor_timeout_v20 :: "ulong \<Rightarrow> directional \<Rightarrow> directional" where
  "check_motor_timeout_v20 currentTime s =
     (if motorState s \<noteq> MOTOR_STOPPED then
        (if currentTime - motorStartTime s \<ge> MOTOR_TIMEOUT
         then Serial_println ''ERROR:MOTOR_TIMEOUT'' (stopMotor_v20 s)
         else s)
      else s)"

definition loop_v20 :: "ulong \<Rightarrow> env \<Rightarrow> string \<Rightarrow> directional \<Rightarrow> fault + directional" where
  "loop_v20 currentTime e input s =
     (case loop_before_timeout_v20 currentTime e input s of
        Inl f \<Rightarrow> Inl f
      | Inr s3 \<Rightarrow> Inr (check_motor_timeout_v20 currentTime s3))"

inductive reachable_v20 :: "directional \<Rightarrow> bool" where
  boot_v20: "reachable_v20 (setup_v20 rom)"
| tick_v20: "reachable_v20 s \<Longrightarrow> env_ok e \<Longrightarrow> loop_v20 currentTime e input s = Inr s'
         \<Longrightarrow> reachable_v20 s'"
| drain_v20: "reachable_v20 s \<Longrightarrow> env_ok e \<Longrightarrow> processSerialCommands_v20 e input s = Inr s'
         \<Longrightarrow> reachable_v20 s'"

section \<open>Version 2.3: light-controlled speed and timed manual moves\<close>

definition MANUAL_OPEN_DURATION :: ulong where
  "MANUAL_OPEN_DURATION = 3000"

definition MANUAL_CLOSE_DURATION :: ulong where
  "MANUAL_CLOSE_DURATION = 6000"

definition LIGHT_SAMPLES_v23 :: nat where
  "LIGHT_SAMPLES_v23 = 5"

definition EEPROM_ADDR_OPEN_THRESHOLD :: nat where
  "EEPROM_ADDR_OPEN_THRESHOLD = 0"

definition EEPROM_ADDR_CLOSE_THRESHOLD :: nat where
  "EEPROM_ADDR_CLOSE_THRESHOLD = 2"

definition EEPROM_ADDR_AUTO_MODE :: nat where
  "EEPROM_ADDR_AUTO_MODE = 4"

definition EEPROM_MAGIC_NUMBER_v23 :: byte where
  "EEPROM_MAGIC_NUMBER_v23 = 0xCD"

definition startManualOpen :: "env \<Rightarrow> manual \<Rightarrow> manual" where
  "startManualOpen e s =
     (if \<not> manualMode s then Serial_println ''ERROR:NOT_IN_MANUAL_MODE'' s
      else
        (let s1 = s\<lparr>manualStartTime := millis e\<rparr>;
             s2 = s1\<lparr>manualOperationActive := True\<rparr>;
             s3 = s2\<lparr>manualOpenOperation := True\<rparr>;
             s4 = s3\<lparr>manualMotorSpeed := 200\<rparr>;
             s5 = analogWrite (manualMotorSpeed s4) s4;
             s6 = s5\<lparr>manual.currentMotorSpeed := manualMotorSpeed s5\<rparr>;
             s7 = Serial_print ''MANUAL_OPEN_STARTED:'' s6;
             s8 = Serial_print (show_digits (uint MANUAL_OPEN_DURATION)) s7
         in Serial_println ''ms'' s8))"

definition startManualClose :: "env \<Rightarrow> manual \<Rightarrow> manual" where
  "startManualClose e s =
     (if \<not> manualMode s then Serial_println ''ERROR:NOT_IN_MANUAL_MODE'' s
      else
        (let s1 = s\<lparr>manualStartTime := millis e\<rparr>;
             s2 = s1\<lparr>manualOperationActive := True\<rparr>;
             s3 = s2\<lparr>manualOpenOperation := False\<rparr>;
             s4 = s3\<lparr>manualMotorSpeed := 150\<rparr>;
             s5 = analogWrite (manualMotorSpeed s4) s4;
             s6 = s5\<lparr>manual.currentMotorSpeed := manualMotorSpeed s5\<rparr>;
             s7 = Serial_print ''MANUAL_CLOSE_STARTED:'' s6;
             s8 = Serial_print (show_digits (uint MANUAL_CLOSE_DURATION)) s7
         in Serial_println ''ms'' s8))"

definition setMotorSpeedManual :: "int \<Rightarrow> manual \<Rightarrow> manual" where
  "setMotorSpeedManual speed s =
     (if \<not> manualMode s then Serial_println ''ERROR:NOT_IN_MANUAL_MODE'' s
      else
        (let s1 = s\<lparr>manualMotorSpeed := constrain speed 0 255\<rparr>;
             s2 = analogWrite (manualMotorSpeed s1) s1;
             s3 = s2\<lparr>manual.currentMotorSpeed := manualMotorSpeed s2\<rparr>;
             s4 = Serial_print ''MOTOR_SPEED:'' s3
         in Serial_println (show_int (manualMotorSpeed s4)) s4))"

definition stopMotor_v23 :: "manual \<Rightarrow> manual" where
  "stopMotor_v23 s =
     (let s1 = analogWrite 0 s;
          s2 = s1\<lparr>manual.currentMotorSpeed := 0\<rparr>;
          s3 = s2\<lparr>manualMotorSpeed := 0\<rparr>;
          s4 = s3\<lparr>manualOperationActive := False\<rparr>
      in Serial_println ''MOTOR:STOPPED'' s4)"

definition saveSettings :: "manual \<Rightarrow> manual" where
  "saveSettings s =
     (let s1 = EEPROM_write EEPROM_ADDR_AUTO_MODE EEPROM_MAGIC_NUMBER_v23 s;
          s2 = EEPROM_write EEPROM_ADDR_OPEN_THRESHOLD (lowByte (openThreshold s)) s1;
          s3 = EEPROM_write (EEPROM_ADDR_OPEN_THRESHOLD + 1) (highByte (openThreshold s)) s2;
          s4 = EEPROM_write EEPROM_ADDR_CLOSE_THRESHOLD (lowByte (closeThreshold s)) s3;
          s5 = EEPROM_write (EEPROM_ADDR_CLOSE_THRESHOLD + 1) (highByte (closeThreshold s)) s4
      in Serial_println ''SETTINGS:SAVED'' s5)"

definition loadSettings :: "manual \<Rightarrow> manual" where
  "loadSettings s =
     (let magic = eeprom s EEPROM_ADDR_AUTO_MODE in
      if magic = EEPROM_MAGIC_NUMBER_v23 then
        (let s1 = s\<lparr>openThreshold := makeWord (eeprom s (EEPROM_ADDR_OPEN_THRESHOLD + 1))
                                               (eeprom s EEPROM_ADDR_OPEN_THRESHOLD)\<rparr>;
             s2 = s1\<lparr>closeThreshold := makeWord (eeprom s (EEPROM_ADDR_CLOSE_THRESHOLD + 1))
                                                  (eeprom s EEPROM_ADDR_CLOSE_THRESHOLD)\<rparr>
         in Serial_println ''SETTINGS:LOADED'' s2)
      else Serial_println ''SETTINGS:NOT_FOUND_USING_DEFAULTS'' s)"

definition resetSettings :: "manual \<Rightarrow> manual" where
  "resetSettings s =
     (let s1 = s\<lparr>openThreshold := 300\<rparr>;
          s2 = s1\<lparr>closeThreshold := 700\<rparr>;
          s3 = s2\<lparr>autoMode := True\<rparr>;
          s4 = s3\<lparr>manualMode := False\<rparr>;
          s5 = EEPROM_write EEPROM_ADDR_AUTO_MODE 0 s4
      in Serial_println ''SETTINGS:RESET'' s5)"

definition setAutoMode :: "bool \<Rightarrow> manual \<Rightarrow> manual" where
  "setAutoMode enable s =
     (let s1 = s\<lparr>autoMode := enable\<rparr>;
          s2 = s1\<lparr>manualMode := (\<not> enable)\<rparr>;
          s3 = stopMotor_v23 s2;
          s4 = saveSettings s3;
          s5 = Serial_print ''MODE:'' s4;
          s6 = Serial_println (if autoMode s2 then ''AUTO'' else ''MANUAL'') s5;
          s7 = Serial_print ''MANUAL_MODE:'' s6
      in Serial_println (if manualMode s2 then ''TRUE'' else ''FALSE'') s7)"

definition setOpenThreshold :: "int \<Rightarrow> manual \<Rightarrow> manual" where
  "setOpenThreshold newThreshold s =
     (let s1 = s\<lparr>openThreshold := constrain newThreshold 0 1023\<rparr>;
          s2 = saveSettings s1;
          s3 = Serial_print ''OPEN_THRESHOLD:'' s2
      in Serial_println (show_int (openThreshold s1)) s3)"

definition setCloseThreshold :: "int \<Rightarrow> manual \<Rightarrow> manual" where
  "setCloseThreshold newThreshold s =
     (let s1 = s\<lparr>closeThreshold := constrain newThreshold 0 1023\<rparr>;
          s2 = saveSettings s1;
          s3 = Serial_print ''CLOSE_THRESHOLD:'' s2
      in Serial_println (show_int (closeThreshold s1)) s3)"

definition sendStatusReport_v23 :: "env \<Rightarrow> manual \<Rightarrow> manual" where
  "sendStatusReport_v23 e s =
     (let s1 = Serial_println ''STATUS:REPORT_START'' s;
          s2 = Serial_print ''LIGHT:'' s1;
          s3 = Serial_println (show_int (lightAverage s)) s2;
          s4 = Serial_print ''LIGHT_RAW:'' s3;
          s5 = Serial_println (show_int (currentLightRaw s)) s4;
          s6 = Serial_print ''OPEN_THRESHOLD:'' s5;
          s7 = Serial_println (show_int (openThreshold s)) s6;
          s8 = Serial_print ''CLOSE_THRESHOLD:'' s7;
          s9 = Serial_println (show_int (closeThreshold s)) s8;
          s10 = Serial_print ''MOTOR_SPEED:'' s9;
          s11 = Serial_println (show_int (manual.currentMotorSpeed s)) s10;
          s12 = Serial_print ''MODE:'' s11;
          s13 = Serial_println (if autoMode s then ''AUTO'' else ''MANUAL'') s12;
          s14 = Serial_print ''UPTIME:'' s13;
          s15 = Serial_println (show_digits (uint (millis e))) s14
      in Serial_println ''STATUS:REPORT_END'' s15)"

definition testMotor_v23 :: "manual \<Rightarrow> manual" where
  "testMotor_v23 s =
     (let s1 = Serial_println ''TEST:MOTOR_START'' s;
          wasAuto = autoMode s1;
          s2 = s1\<lparr>autoMode := False\<rparr>;
          s3 = s2\<lparr>manualMode := True\<rparr>;
          s4 = Serial_println ''TEST:Testing 25% speed...'' s3;
          s5 = analogWrite 64 s4;
          s6 = Serial_println ''TEST:Testing 50% speed...'' s5;
          s7 = analogWrite 128 s6;
          s8 = Serial_println ''TEST:Testing 75% speed...'' s7;
          s9 = analogWrite 192 s8;
          s10 = Serial_println ''TEST:Testing 100% speed...'' s9;
          s11 = analogWrite 255 s10;
          s12 = Serial_println ''TEST:Stopping motor...'' s11;
          s13 = analogWrite 0 s12;
          s14 = s13\<lparr>autoMode := wasAuto\<rparr>;
          s15 = s14\<lparr>manualMode := (\<not> wasAuto)\<rparr>;
          s16 = Serial_println ''TEST:MOTOR_COMPLETE'' s15;
          s17 = Serial_print ''TEST:Restored to '' s16
      in Serial_println (if wasAuto then ''AUTO'' else ''MANUAL'') s17)"

definition processCommand_v23 :: "env \<Rightarrow> string \<Rightarrow> manual \<Rightarrow> fault + manual" where
  "processCommand_v23 e command0 s =
     (let command = toUpperCase (trim command0);
          colonPos = indexOf (CHR '':'') command;
          cmd = (if colonPos > 0 then substring command 0 (nat colonPos) else command);
          params = (if colonPos > 0 then substring_from command (nat (colonPos + 1)) else [])
      in if cmd = ''AUTO'' \<or> cmd = ''AUTO_MODE'' then Inr (setAutoMode True s)
         else if cmd = ''MANUAL'' \<or> cmd = ''MANUAL_MODE'' then Inr (setAutoMode False s)
         else if cmd = ''SET_SPEED'' then
           (if length params > 0 then
              (let speed = to_int (toInt params) in
               if speed \<le> 100 then
                 (case map_long speed 0 100 0 255 of
                    Inl f \<Rightarrow> Inl f
                  | Inr r \<Rightarrow> Inr (setMotorSpeedManual (to_int r) s))
               else Inr (setMotorSpeedManual speed s))
            else Inr (Serial_println ''ERROR:MISSING_SPEED_PARAMETER'' s))
         else if cmd = ''STOP_MOTOR'' \<or> cmd = ''STOP'' then Inr (stopMotor_v23 s)
         else if cmd = ''SET_OPEN_THRESHOLD'' then
           (if length params > 0 then Inr (setOpenThreshold (to_int (toInt params)) s)
            else Inr (Serial_println ''ERROR:MISSING_THRESHOLD_PARAMETER'' s))
         else if cmd = ''SET_CLOSE_THRESHOLD'' then
           (if length params > 0 then Inr (setCloseThreshold (to_int (toInt params)) s)
            else Inr (Serial_println ''ERROR:MISSING_THRESHOLD_PARAMETER'' s))
         else if cmd = ''OPEN_CURTAIN'' then
           (if manualMode s then Inr (startManualOpen e s)
            else Inr (Serial_println ''ERROR:NOT_IN_MANUAL_MODE'' s))
         else if cmd = ''CLOSE_CURTAIN'' then
           (if manualMode s then Inr (startManualClose e s)
            else Inr (Serial_println ''ERROR:NOT_IN_MANUAL_MODE'' s))
         else if cmd = ''READ_LIGHT'' then
           (let s1 = Serial_print ''LIGHT:'' s;
                s2 = Serial_println (show_int (lightAverage s)) s1;
                s3 = Serial_print ''LIGHT_RAW:'' s2
            in Inr (Serial_println (show_int (currentLightRaw s)) s3))
         else if cmd = ''GET_STATUS'' then Inr (sendStatusReport_v23 e s)
         else if cmd = ''RESET_SETTINGS'' then Inr (resetSettings s)
         else if cmd = ''TEST_MOTOR'' then Inr (testMotor_v23 s)
         else if cmd = ''PING'' then Inr (Serial_println ''PONG'' s)
         else if cmd = ''VERSION'' then Inr (Serial_println ''VERSION:2.3-Enhanced'' s)
         else Inr (Serial_println cmd (Serial_print ''ERROR:UNKNOWN_COMMAND:'' s)))"

fun processSerialCommands_v23 :: "env \<Rightarrow> string \<Rightarrow> manual \<Rightarrow> fault + manual" where
  "processSerialCommands_v23 e [] s = Inr s"
| "processSerialCommands_v23 e (inChar # rest) s =
     (if inChar = CHR 0x0A \<or> inChar = CHR 0x0D then
        (if length (commandBuffer s) > 0 then
           (case processCommand_v23 e (commandBuffer s) s of
              Inl f \<Rightarrow> Inl f
            | Inr s1 \<Rightarrow> processSerialCommands_v23 e rest (s1\<lparr>commandBuffer := []\<rparr>))
         else processSerialCommands_v23 e rest s)
      else if length (commandBuffer s) < MAX_COMMAND_LENGTH
      then processSerialCommands_v23 e rest (s\<lparr>commandBuffer := commandBuffer s @ [inChar]\<rparr>)
      else processSerialCommands_v23 e rest s)"

definition initial_v23 :: "(nat \<Rightarrow> byte) \<Rightarrow> manual" where
  "initial_v23 rom =
     \<lparr>serialOut = [], motorPin = 0, eeprom = rom,
      lightReadings = replicate LIGHT_SAMPLES_v23 0, lightReadIndex = 0, lightTotal = 0,
      lightAverage = 0, lastLightRead = 0, lastStatusReport = 0, commandBuffer = [],
      currentLightRaw = 0, openThreshold = 300, closeThreshold = 700,
      currentMotorSpeed = 0, autoMode = True, manualMode = False, manualMotorSpeed = 0,
      manualStartTime = 0, manualOperationActive = False, manualOpenOperation = False\<rparr>"

fun prefill_v23 :: "nat \<Rightarrow> int list \<Rightarrow> 'a sketch_scheme \<Rightarrow> 'a sketch_scheme" where
  "prefill_v23 i [] s = s"
| "prefill_v23 i (reading # rest) s =
     (if i < LIGHT_SAMPLES_v23
      then prefill_v23 (i + 1) rest
             (s\<lparr>lightReadings := (lightReadings s)[i := reading],
                lightTotal := to_int (lightTotal s + reading)\<rparr>)
      else s)"

definition setup_v23 :: "(nat \<Rightarrow> byte) \<Rightarrow> int list \<Rightarrow> manual" where
  "setup_v23 rom readings =
     (let s1 = analogWrite 0 (initial_v23 rom);
          s2 = s1\<lparr>lightReadings := replicate LIGHT_SAMPLES_v23 0\<rparr>;
          s3 = prefill_v23 0 readings s2;
          s4 = s3\<lparr>lightAverage := c_div (lightTotal s3) (int LIGHT_SAMPLES_v23)\<rparr>;
          s5 = loadSettings s4;
          s6 = Serial_println ''READY:Arduino Curtain Control v2.3 (Enhanced Control)'' s5;
          s7 = Serial_print ''MODE:'' s6;
          s8 = Serial_println (if autoMode s5 then ''AUTO'' else ''MANUAL'') s7;
          s9 = Serial_print ''OPEN_THRESHOLD:'' s8;
          s10 = Serial_println (show_int (openThreshold s5)) s9;
          s11 = Serial_print ''CLOSE_THRESHOLD:'' s10;
          s12 = Serial_println (show_int (closeThreshold s5)) s11;
          s13 = Serial_print ''INITIAL_LIGHT:'' s12
      in Serial_println (show_int (lightAverage s5)) s13)"

section \<open>Stating the properties\<close>

subsection \<open>Running the sketches\<close>

text \<open>The Arduino main program calls \<open>setup()\<close> once and then \<open>loop()\<close> for ever. A run
  is given by its passes: the time at the top of the pass, what the hardware answers during
  it, and the bytes waiting on the serial port. A pass that faults ends the run.\<close>

fun run :: "(ulong \<times> env \<times> string) list \<Rightarrow> spinning \<Rightarrow> fault + spinning" where
  "run [] s = Inr s"
| "run ((currentTime, e, input) # rest) s =
     (case loop currentTime e input s of Inl f \<Rightarrow> Inl f | Inr s' \<Rightarrow> run rest s')"

fun run_v20 :: "(ulong \<times> env \<times> string) list \<Rightarrow> directional \<Rightarrow> fault + directional" where
  "run_v20 [] s = Inr s"
| "run_v20 ((currentTime, e, input) # rest) s =
     (case loop_v20 currentTime e input s of Inl f \<Rightarrow> Inl f | Inr s' \<Rightarrow> run_v20 rest s')"

text \<open>What an observer reads from the state a computation returns (nothing when it
  faults).\<close>

definition on_return :: "('s \<Rightarrow> 'a) \<Rightarrow> fault + 's \<Rightarrow> 'a option" where
  "on_return f r = (case r of Inl x \<Rightarrow> None | Inr s \<Rightarrow> Some (f s))"

subsection \<open>Boards to evaluate the sketches on\<close>

text \<open>An erased EEPROM reads \<open>0xFF\<close> everywhere. \<open>calibrated_rom\<close> is what
  \<open>saveCalibration\<close> leaves for the bounds 100 and 900; \<open>degenerate_rom\<close> holds the
  magic byte and the bounds 500 and 500.\<close>

definition blank_rom :: "nat \<Rightarrow> byte" where
  "blank_rom a = 0xFF"

definition calibrated_rom :: "nat \<Rightarrow> byte" where
  "calibrated_rom a =
     (if a = 4 then 0xAB else if a = 0 then 0x64 else if a = 1 then 0x00
      else if a = 2 then 0x84 else if a = 3 then 0x03 else 0xFF)"

definition degenerate_rom :: "nat \<Rightarrow> byte" where
  "degenerate_rom a =
     (if a = 4 then 0xAB else if a = 0 \<or> a = 2 then 0xF4 else if a = 1 \<or> a = 3 then 0x01
      else 0xFF)"

text \<open>Hardware that answers \<open>t\<close> to \<open>millis()\<close> and 500 to every reading of the
  sensor; a command line as it arrives, ended by a newline; and the three sketches after
  \<open>setup()\<close> on an erased EEPROM in steady light.\<close>

definition at_time :: "ulong \<Rightarrow> env" where
  "at_time t = \<lparr>millis = t, analogRead = 500, calibrationReadings = [500]\<rparr>"

definition line :: "string \<Rightarrow> string" where
  "line x = x @ [CHR 0x0A]"

definition booted :: spinning where
  "booted = setup_v21 blank_rom (replicate 10 500)"

definition booted_v20 :: directional where
  "booted_v20 = setup_v20 blank_rom"

definition booted_v23 :: manual where
  "booted_v23 = setup_v23 blank_rom (replicate 5 500)"

subsection \<open>Invariants\<close>

text \<open>The sample buffer: ten entries, each a possible reading, the index inside the
  buffer, and the running total equal to their sum.\<close>

definition light_inv :: "'a sketch_scheme \<Rightarrow> bool" where
  "light_inv s = (length (lightReadings s) = LIGHT_SAMPLES \<and> lightReadIndex s < LIGHT_SAMPLES \<and>
     list_all (\<lambda>r. 0 \<le> r \<and> r \<le> 1023) (lightReadings s) \<and>
     lightTotal s = sum_list (lightReadings s))"

text \<open>What \<open>readLightSensor\<close> has done once it returns: the reading has replaced the
  entry at the old index, the total is the exact sum of the buffer, and the average that
  is stored and sent on the \<open>LIGHT:\<close> line is the total divided by the number of samples,
  truncated.\<close>

definition exact_running_total :: "int \<Rightarrow> 'a sketch_scheme \<Rightarrow> bool" where
  "exact_running_total reading s =
     (let s' = readLightSensor reading s in
      lightReadings s' = (lightReadings s)[lightReadIndex s := reading] \<and>
      length (lightReadings s') = LIGHT_SAMPLES \<and>
      lightTotal s' = sum_list (lightReadings s') \<and>
      lightAverage s' = c_div (lightTotal s') (int LIGHT_SAMPLES) \<and>
      0 \<le> lightAverage s' \<and>
      int LIGHT_SAMPLES * lightAverage s' \<le> lightTotal s' \<and>
      lightTotal s' < int LIGHT_SAMPLES * lightAverage s' + int LIGHT_SAMPLES \<and>
      serialOut s' = serialOut s @ ''LIGHT:'' @ show_int (lightAverage s') @ crlf)"

text \<open>The motor state machine: a stopped motor is never at a partial position, and a
  moving one always is.\<close>

definition stopped_not_partial :: "'a curtain_scheme \<Rightarrow> bool" where
  "stopped_not_partial s = (motorState s = MOTOR_STOPPED \<longrightarrow> curtainPosition s \<noteq> POSITION_PARTIAL)"

definition moving_is_partial :: "'a curtain_scheme \<Rightarrow> bool" where
  "moving_is_partial s = (motorState s \<noteq> MOTOR_STOPPED \<longrightarrow> curtainPosition s = POSITION_PARTIAL)"

definition motor_inv :: "'a curtain_scheme \<Rightarrow> bool" where
  "motor_inv s = (stopped_not_partial s \<and> moving_is_partial s)"

text \<open>The fields the two invariants read; a function that leaves them alone keeps the
  invariant.\<close>

definition light_part :: "'a sketch_scheme \<Rightarrow> int list \<times> nat \<times> int" where
  "light_part s = (lightReadings s, lightReadIndex s, lightTotal s)"

definition motor_part :: "'a curtain_scheme \<Rightarrow> MotorState \<times> CurtainPosition" where
  "motor_part s = (motorState s, curtainPosition s)"

subsection \<open>Ranges and characters\<close>

text \<open>The values an \<open>int\<close> variable of the sketch can hold, and the white space that can
  stand inside a line (a newline or carriage return ends it).\<close>

definition is_int :: "int \<Rightarrow> bool" where
  "is_int x = (- 32768 \<le> x \<and> x \<le> 32767)"

definition blank :: "char \<Rightarrow> bool" where
  "blank c = (isspace c \<and> c \<noteq> CHR 0x0A \<and> c \<noteq> CHR 0x0D)"

section \<open>Proofs\<close>

subsection \<open>Arithmetic and lists\<close>

lemma to_int_id: "- 32768 \<le> x \<Longrightarrow> x < 32768 \<Longrightarrow> to_int x = x"
  by (simp add: to_int_def)

lemma to_long_id: "- 2147483648 \<le> x \<Longrightarrow> x < 2147483648 \<Longrightarrow> to_long x = x"
  by (simp add: to_long_def)

lemma c_div_nonneg: "0 \<le> a \<Longrightarrow> 0 < b \<Longrightarrow> c_div a b = a div b"
  by (cases "a = 0") (simp_all add: c_div_def)

lemma sum_list_update_int:
  "i < length xs \<Longrightarrow> sum_list (xs[i := v]) = sum_list xs - xs ! i + (v::int)"
  by (induction xs arbitrary: i) (auto split: nat.splits)

lemma sum_list_bounds:
  "list_all (\<lambda>r. 0 \<le> r \<and> r \<le> 1023) xs \<Longrightarrow> 0 \<le> sum_list xs \<and> sum_list xs \<le> 1023 * int (length xs)"
  by (induction xs) (auto simp: algebra_simps)

lemma list_all_update:
  "list_all P xs \<Longrightarrow> P v \<Longrightarrow> list_all P (xs[i := v])"
  by (induction xs arbitrary: i) (auto split: nat.splits)

subsection \<open>The sample buffer\<close>

lemma readLightSensor_fields:
  "lightReadings (readLightSensor r s) = (lightReadings s)[lightReadIndex s := r]"
  "lightReadIndex (readLightSensor r s) = (lightReadIndex s + 1) mod LIGHT_SAMPLES"
  "lightTotal (readLightSensor r s) =
     to_int (to_int (lightTotal s - lightReadings s ! lightReadIndex s) +
             (lightReadings s)[lightReadIndex s := r] ! lightReadIndex s)"
  "lightAverage (readLightSensor r s) = c_div (lightTotal (readLightSensor r s)) (int LIGHT_SAMPLES)"
  "serialOut (readLightSensor r s) =
     serialOut s @ ''LIGHT:'' @ show_int (lightAverage (readLightSensor r s)) @ crlf"
  by (simp_all add: readLightSensor_def Let_def Serial_println_def Serial_print_def)

lemma readLightSensor_total:
  assumes "light_inv s" "0 \<le> r" "r \<le> 1023"
  shows "lightTotal (readLightSensor r s) = sum_list (lightReadings (readLightSensor r s))"
proof -
  let ?xs = "lightReadings s" and ?i = "lightReadIndex s"
  from assms have len: "length ?xs = 10" and i: "?i < length ?xs"
    and all: "list_all (\<lambda>r. 0 \<le> r \<and> r \<le> 1023) ?xs" and tot: "lightTotal s = sum_list ?xs"
    by (simp_all add: light_inv_def LIGHT_SAMPLES_def)
  from all i have old: "0 \<le> ?xs ! ?i" "?xs ! ?i \<le> 1023"
    by (simp_all add: list_all_length)
  from sum_list_bounds[OF all] len have sb: "0 \<le> sum_list ?xs" "sum_list ?xs \<le> 10230"
    by simp_all
  have upd: "sum_list (?xs[?i := r]) = sum_list ?xs - ?xs ! ?i + r"
    using i by (rule sum_list_update_int)
  from list_all_update[OF all, of r ?i] assms(2,3)
  have all': "list_all (\<lambda>r. 0 \<le> r \<and> r \<le> 1023) (?xs[?i := r])" by simp
  from sum_list_bounds[OF all'] len have sb': "0 \<le> sum_list (?xs[?i := r])" "sum_list (?xs[?i := r]) \<le> 10230"
    by simp_all
  have a: "to_int (lightTotal s - ?xs ! ?i) = sum_list ?xs - ?xs ! ?i"
    unfolding tot using sb old by (intro to_int_id) linarith+
  have b: "to_int (sum_list ?xs - ?xs ! ?i + r) = sum_list ?xs - ?xs ! ?i + r"
    using sb' upd by (intro to_int_id) linarith+
  show ?thesis
    using i by (simp add: readLightSensor_fields a b upd)
qed

lemma readLightSensor_light_inv:
  assumes "light_inv s" "0 \<le> r" "r \<le> 1023"
  shows "light_inv (readLightSensor r s)"
  using readLightSensor_total[OF assms] assms
  by (simp add: light_inv_def readLightSensor_fields list_all_update LIGHT_SAMPLES_def)

subsection \<open>What each function leaves alone\<close>

lemmas io_defs = Serial_print_def Serial_println_def analogWrite_def EEPROM_write_def digitalWrite_def

lemma light_inv_transfer: "light_part s' = light_part s \<Longrightarrow> light_inv s \<Longrightarrow> light_inv s'"
  by (simp add: light_part_def light_inv_def)

lemma light_part_io [simp]:
  "light_part (Serial_print x s) = light_part s"
  "light_part (Serial_println x s) = light_part s"
  "light_part (analogWrite v s) = light_part s"
  "light_part (digitalWrite h s) = light_part s"
  "light_part (EEPROM_write a b s) = light_part s"
  by (simp_all add: light_part_def io_defs)

lemma motor_part_io [simp]:
  "motor_part (Serial_print x s) = motor_part s"
  "motor_part (Serial_println x s) = motor_part s"
  "motor_part (analogWrite v s) = motor_part s"
  "motor_part (digitalWrite h s) = motor_part s"
  "motor_part (EEPROM_write a b s) = motor_part s"
  by (simp_all add: motor_part_def io_defs)

lemma light_part_updates [simp]:
  "light_part (s\<lparr>lightMin := i\<rparr>) = light_part s"
  "light_part (s\<lparr>lightMax := i\<rparr>) = light_part s"
  "light_part (s\<lparr>isCalibrated := b\<rparr>) = light_part s"
  "light_part (s\<lparr>motorState := m\<rparr>) = light_part s"
  "light_part (s\<lparr>curtainPosition := p\<rparr>) = light_part s"
  "light_part (s\<lparr>motorStartTime := t\<rparr>) = light_part s"
  "light_part (s\<lparr>lightAverage := i\<rparr>) = light_part s"
  "light_part (s\<lparr>commandBuffer := c\<rparr>) = light_part s"
  "light_part (s\<lparr>lastLightRead := t\<rparr>) = light_part s"
  "light_part (s\<lparr>lastStatusReport := t\<rparr>) = light_part s"
  by (simp_all add: light_part_def)

lemma motor_part_updates [simp]:
  "motor_part (s\<lparr>lightMin := i\<rparr>) = motor_part s"
  "motor_part (s\<lparr>lightMax := i\<rparr>) = motor_part s"
  "motor_part (s\<lparr>isCalibrated := b\<rparr>) = motor_part s"
  "motor_part (s\<lparr>motorStartTime := t\<rparr>) = motor_part s"
  "motor_part (s\<lparr>lightAverage := i\<rparr>) = motor_part s"
  "motor_part (s\<lparr>lightTotal := i\<rparr>) = motor_part s"
  "motor_part (s\<lparr>lightReadings := xs\<rparr>) = motor_part s"
  "motor_part (s\<lparr>lightReadIndex := n\<rparr>) = motor_part s"
  "motor_part (s\<lparr>commandBuffer := c\<rparr>) = motor_part s"
  "motor_part (s\<lparr>lastLightRead := t\<rparr>) = motor_part s"
  "motor_part (s\<lparr>lastStatusReport := t\<rparr>) = motor_part s"
  by (simp_all add: motor_part_def)

lemma part_updates_v21 [simp]:
  "light_part (s\<lparr>currentMotorSpeed := i\<rparr>) = light_part s"
  "motor_part (s\<lparr>currentMotorSpeed := i\<rparr>) = motor_part s"
  by (simp_all add: light_part_def motor_part_def)

lemma part_updates_v20 [simp]:
  "light_part (s\<lparr>motorSpeed := i\<rparr>) = light_part s"
  "motor_part (s\<lparr>motorSpeed := i\<rparr>) = motor_part s"
  "light_part (s\<lparr>motorDirPin := b\<rparr>) = light_part s"
  "motor_part (s\<lparr>motorDirPin := b\<rparr>) = motor_part s"
  by (simp_all add: light_part_def motor_part_def)

lemma calibration_loop_frame [simp]:
  "light_part (calibration_loop rs s) = light_part s"
  "motor_part (calibration_loop rs s) = motor_part s"
proof -
  show "light_part (calibration_loop rs s) = light_part s"
    by (induction rs arbitrary: s) (simp_all add: Let_def)
  show "motor_part (calibration_loop rs s) = motor_part s"
    by (induction rs arbitrary: s) (simp_all add: Let_def)
qed

lemma startCalibration_frame [simp]:
  "light_part (startCalibration e s) = light_part s"
  "motor_part (startCalibration e s) = motor_part s"
  by (simp_all add: startCalibration_def saveCalibration_def Let_def)

lemma resetCalibration_frame [simp]:
  "light_part (resetCalibration s) = light_part s"
  "motor_part (resetCalibration s) = motor_part s"
  by (simp_all add: resetCalibration_def Let_def)

lemma loadCalibration_frame [simp]:
  "light_part (loadCalibration s) = light_part s"
  "motor_part (loadCalibration s) = motor_part s"
  by (simp_all add: loadCalibration_def Let_def)

lemma openCurtain_light [simp]: "light_part (openCurtain e s) = light_part s"
  by (simp add: openCurtain_def Let_def)

lemma closeCurtain_light [simp]: "light_part (closeCurtain e s) = light_part s"
  by (simp add: closeCurtain_def Let_def)

lemma stopMotor_light [simp]: "light_part (stopMotor s) = light_part s"
  by (simp add: stopMotor_def Let_def)

lemma testMotor_frame [simp]:
  "light_part (testMotor s) = light_part s"
  "motor_part (testMotor s) = motor_part s"
  by (simp_all add: testMotor_def Let_def)

lemma setMotorSpeed_frame:
  assumes "setMotorSpeed p s = Inr s'"
  shows "light_part s' = light_part s" "motor_part s' = motor_part s"
  using assms
  by (auto simp: setMotorSpeed_def Let_def split: sum.splits if_splits)

lemma sendStatusReport_frame:
  assumes "sendStatusReport e s = Inr s'"
  shows "light_part s' = light_part s" "motor_part s' = motor_part s"
  using assms
  by (auto simp: sendStatusReport_def Let_def split: sum.splits)

lemma processCommand_light:
  assumes "processCommand e c s = Inr s'"
  shows "light_part s' = light_part s"
  using assms
  unfolding processCommand_def Let_def
  by (auto dest: setMotorSpeed_frame sendStatusReport_frame split: if_splits sum.splits)

lemma processSerialCommands_light:
  "processSerialCommands e input s = Inr s' \<Longrightarrow> light_part s' = light_part s"
proof (induction input arbitrary: s)
  case Nil
  then show ?case by simp
next
  case (Cons c cs)
  then show ?case
    by (auto split: if_splits sum.splits dest!: processCommand_light)
qed

lemma check_motor_timeout_light [simp]:
  "light_part (check_motor_timeout t s) = light_part s"
  by (simp add: check_motor_timeout_def)

lemma loop_light_inv:
  assumes "loop t e input s = Inr s'" "light_inv s" "env_ok e"
  shows "light_inv s'"
proof -
  from assms(1) obtain s1 s3 where
    s1: "processSerialCommands e input s = Inr s1" and
    s3: "loop_before_timeout t e input s = Inr s3" and
    s': "s' = check_motor_timeout t s3"
    by (auto simp: loop_def loop_before_timeout_def split: sum.splits)
  from processSerialCommands_light[OF s1] assms(2) have i1: "light_inv s1"
    by (rule light_inv_transfer)
  from assms(3) have r: "0 \<le> analogRead e" "analogRead e \<le> 1023"
    by (simp_all add: env_ok_def)
  define s2 where "s2 = (if t - lastLightRead s1 \<ge> LIGHT_READ_INTERVAL
                     then (readLightSensor (analogRead e) s1)\<lparr>lastLightRead := t\<rparr>
                     else s1)"
  have "light_inv ((readLightSensor (analogRead e) s1)\<lparr>lastLightRead := t\<rparr>)"
    using readLightSensor_light_inv[OF i1 r] by (rule light_inv_transfer[rotated]) simp
  with i1 have i2: "light_inv s2"
    by (simp add: s2_def)
  have "s3 = s2 \<or> (\<exists>x. sendStatusReport e s2 = Inr x \<and> s3 = x\<lparr>lastStatusReport := t\<rparr>)"
    using s3 s1 by (auto simp: loop_before_timeout_def s2_def Let_def split: if_splits sum.splits)
  then have "light_part s3 = light_part s2"
    by (auto dest: sendStatusReport_frame(1))
  then have "light_inv s3" using i2 by (rule light_inv_transfer)
  then show ?thesis unfolding s' by (rule light_inv_transfer[rotated]) simp
qed

lemma prefill_frame:
  "length (lightReadings s) = LIGHT_SAMPLES \<Longrightarrow> i + length rs = LIGHT_SAMPLES \<Longrightarrow>
   list_all (\<lambda>r. 0 \<le> r \<and> r \<le> 1023) rs \<Longrightarrow> 0 \<le> lightTotal s \<Longrightarrow> lightTotal s \<le> 1023 * int i \<Longrightarrow>
   lightReadings (prefill i rs s) = take i (lightReadings s) @ rs \<and>
   lightTotal (prefill i rs s) = lightTotal s + sum_list rs \<and>
   lightReadIndex (prefill i rs s) = lightReadIndex s"
proof (induction rs arbitrary: i s)
  case Nil
  then show ?case by simp
next
  case (Cons r rs)
  let ?s = "s\<lparr>lightReadings := (lightReadings s)[i := r], lightTotal := to_int (lightTotal s + r)\<rparr>"
  from Cons.prems have i: "i < LIGHT_SAMPLES" and r: "0 \<le> r" "r \<le> 1023" by simp_all
  have t: "to_int (lightTotal s + r) = lightTotal s + r"
    using Cons.prems r i by (intro to_int_id) (simp_all add: LIGHT_SAMPLES_def)
  have "lightReadings (prefill (i + 1) rs ?s) = take (i + 1) (lightReadings ?s) @ rs \<and>
        lightTotal (prefill (i + 1) rs ?s) = lightTotal ?s + sum_list rs \<and>
        lightReadIndex (prefill (i + 1) rs ?s) = lightReadIndex ?s"
    using Cons.prems r t by (intro Cons.IH) (simp_all add: algebra_simps)
  moreover have "take (i + 1) ((lightReadings s)[i := r]) = take i (lightReadings s) @ [r]"
    using i Cons.prems(1) by (simp add: take_Suc_conv_app_nth)
  ultimately show ?case using i t by simp
qed

lemma prefill_motor [simp]: "motor_part (prefill i rs s) = motor_part s"
  by (induction rs arbitrary: i s) (simp_all add: motor_part_def)

lemma setup_v21_light_inv:
  assumes "length readings = LIGHT_SAMPLES" "list_all (\<lambda>r. 0 \<le> r \<and> r \<le> 1023) readings"
  shows "light_inv (setup_v21 rom readings)"
proof -
  let ?s2 = "(analogWrite 0 (initial rom))\<lparr>lightReadings := replicate LIGHT_SAMPLES 0\<rparr>"
  have p: "lightReadings (prefill 0 readings ?s2) = take 0 (lightReadings ?s2) @ readings \<and>
        lightTotal (prefill 0 readings ?s2) = lightTotal ?s2 + sum_list readings \<and>
        lightReadIndex (prefill 0 readings ?s2) = lightReadIndex ?s2"
    using assms by (intro prefill_frame) (simp_all add: initial_def analogWrite_def)
  have "light_part (setup_v21 rom readings) = (readings, 0, sum_list readings)"
    using p by (simp add: setup_v21_def Let_def)
      (simp add: light_part_def initial_def analogWrite_def)
  then show ?thesis using assms by (simp add: light_inv_def light_part_def LIGHT_SAMPLES_def)
qed

lemma reachable_light_inv: "reachable s \<Longrightarrow> light_inv s"
proof (induction rule: reachable.induct)
  case (boot readings rom)
  then show ?case by (rule setup_v21_light_inv)
next
  case (tick s e currentTime input s')
  then show ?case by (auto intro: loop_light_inv)
next
  case (drain s e input s')
  from processSerialCommands_light[OF drain.hyps(3)] drain.IH show ?case
    by (rule light_inv_transfer)
qed

subsection \<open>The motor state machine of version 2.1\<close>

lemma motor_inv_transfer: "motor_part s' = motor_part s \<Longrightarrow> motor_inv s \<Longrightarrow> motor_inv s'"
  by (simp add: motor_part_def motor_inv_def stopped_not_partial_def moving_is_partial_def)

lemma openCurtain_motor:
  "motor_part (openCurtain e s) =
     (if curtainPosition s = POSITION_OPEN then motor_part s else (MOTOR_OPENING, POSITION_PARTIAL))"
  by (simp add: openCurtain_def Let_def motor_part_def io_defs)

lemma closeCurtain_motor:
  "motor_part (closeCurtain e s) =
     (if curtainPosition s = POSITION_CLOSED then motor_part s else (MOTOR_CLOSING, POSITION_PARTIAL))"
  by (simp add: closeCurtain_def Let_def motor_part_def io_defs)

lemma stopMotor_motor:
  "motor_part (stopMotor s) =
     (MOTOR_STOPPED,
      if motorState s = MOTOR_OPENING then POSITION_OPEN
      else if motorState s = MOTOR_CLOSING then POSITION_CLOSED
      else curtainPosition s)"
  by (simp add: stopMotor_def Let_def motor_part_def io_defs)

lemma openCurtain_motor_inv: "motor_inv s \<Longrightarrow> motor_inv (openCurtain e s)"
  using openCurtain_motor[of e s]
  by (auto simp: motor_part_def motor_inv_def stopped_not_partial_def moving_is_partial_def
      split: if_splits)

lemma closeCurtain_motor_inv: "motor_inv s \<Longrightarrow> motor_inv (closeCurtain e s)"
  using closeCurtain_motor[of e s]
  by (auto simp: motor_part_def motor_inv_def stopped_not_partial_def moving_is_partial_def
      split: if_splits)

lemma stopMotor_motor_inv: "motor_inv s \<Longrightarrow> motor_inv (stopMotor s)"
  using stopMotor_motor[of s]
  by (cases "motorState s") (auto simp: motor_part_def motor_inv_def stopped_not_partial_def moving_is_partial_def
      split: if_splits)

lemma processCommand_motor_inv:
  assumes "processCommand e c s = Inr s'" "motor_inv s"
  shows "motor_inv s'"
proof -
  from assms(1) have "s' = openCurtain e s \<or> s' = closeCurtain e s \<or> s' = stopMotor s \<or>
      motor_part s' = motor_part s"
    unfolding processCommand_def Let_def
    by (auto dest: setMotorSpeed_frame sendStatusReport_frame split: if_splits sum.splits)
  with assms(2) show ?thesis
    by (auto intro: openCurtain_motor_inv closeCurtain_motor_inv stopMotor_motor_inv
        motor_inv_transfer)
qed

lemma processSerialCommands_motor_inv:
  "processSerialCommands e input s = Inr s' \<Longrightarrow> motor_inv s \<Longrightarrow> motor_inv s'"
proof (induction input arbitrary: s)
  case Nil
  then show ?case by simp
next
  case (Cons c cs)
  have buf: "\<And>x b. motor_inv x \<Longrightarrow> motor_inv (x\<lparr>commandBuffer := b\<rparr>)"
    by (erule motor_inv_transfer[rotated]) simp
  from Cons.prems show ?case
    by (auto split: if_splits sum.splits
        intro: Cons.IH buf dest: processCommand_motor_inv)
qed

lemma check_motor_timeout_motor_inv:
  "motor_inv s \<Longrightarrow> motor_inv (check_motor_timeout t s)"
  unfolding check_motor_timeout_def
  by (auto intro: motor_inv_transfer[of "Serial_println x (stopMotor s)" "stopMotor s" for x]
      stopMotor_motor_inv)

lemma loop_before_timeout_motor_inv:
  assumes "loop_before_timeout t e input s = Inr s3" "motor_inv s"
  shows "motor_inv s3"
proof -
  from assms(1) obtain s1 where s1: "processSerialCommands e input s = Inr s1"
    by (auto simp: loop_before_timeout_def split: sum.splits)
  from processSerialCommands_motor_inv[OF s1 assms(2)] have i1: "motor_inv s1" .
  define s2 where "s2 = (if t - lastLightRead s1 \<ge> LIGHT_READ_INTERVAL
                     then (readLightSensor (analogRead e) s1)\<lparr>lastLightRead := t\<rparr>
                     else s1)"
  have "motor_part s2 = motor_part s1"
    by (simp add: s2_def) (simp add: readLightSensor_def Let_def motor_part_def io_defs)
  then have i2: "motor_inv s2" using i1 by (rule motor_inv_transfer)
  have "s3 = s2 \<or> (\<exists>x. sendStatusReport e s2 = Inr x \<and> s3 = x\<lparr>lastStatusReport := t\<rparr>)"
    using assms(1) s1 by (auto simp: loop_before_timeout_def s2_def Let_def split: if_splits sum.splits)
  then have "motor_part s3 = motor_part s2"
    by (auto dest: sendStatusReport_frame(2))
  then show ?thesis using i2 by (rule motor_inv_transfer)
qed

lemma loop_motor_inv:
  assumes "loop t e input s = Inr s'" "motor_inv s"
  shows "motor_inv s'"
  using assms
  by (auto simp: loop_def split: sum.splits
      intro!: check_motor_timeout_motor_inv dest: loop_before_timeout_motor_inv)

lemma setup_v21_motor: "motor_part (setup_v21 rom readings) = (MOTOR_STOPPED, POSITION_UNKNOWN)"
  by (simp add: setup_v21_def Let_def) (simp add: motor_part_def initial_def analogWrite_def)

lemma reachable_motor_inv: "reachable s \<Longrightarrow> motor_inv s"
proof (induction rule: reachable.induct)
  case (boot readings rom)
  show ?case using setup_v21_motor[of rom readings]
    by (simp add: motor_part_def motor_inv_def stopped_not_partial_def moving_is_partial_def)
next
  case (tick s e currentTime input s')
  then show ?case by (auto intro: loop_motor_inv)
next
  case (drain s e input s')
  then show ?case by (auto intro: processSerialCommands_motor_inv)
qed

subsection \<open>Version 2.0\<close>

lemma openCurtain_v20_light [simp]: "light_part (openCurtain_v20 e s) = light_part s"
  by (simp add: openCurtain_v20_def Let_def)

lemma closeCurtain_v20_light [simp]: "light_part (closeCurtain_v20 e s) = light_part s"
  by (simp add: closeCurtain_v20_def Let_def)

lemma stopMotor_v20_light [simp]: "light_part (stopMotor_v20 s) = light_part s"
  by (simp add: stopMotor_v20_def Let_def)

lemma setMotorSpeed_v20_frame [simp]:
  "light_part (setMotorSpeed_v20 v s) = light_part s"
  "motor_part (setMotorSpeed_v20 v s) = motor_part s"
  by (simp_all add: setMotorSpeed_v20_def Let_def)

lemma sendStatusReport_v20_frame:
  assumes "sendStatusReport_v20 e s = Inr s'"
  shows "light_part s' = light_part s" "motor_part s' = motor_part s"
  using assms
  by (auto simp: sendStatusReport_v20_def Let_def split: sum.splits)

lemma openCurtain_v20_motor:
  "motor_part (openCurtain_v20 e s) =
     (if curtainPosition s = POSITION_OPEN then motor_part s else (MOTOR_OPENING, POSITION_PARTIAL))"
  by (simp add: openCurtain_v20_def Let_def motor_part_def io_defs)

lemma closeCurtain_v20_motor:
  "motor_part (closeCurtain_v20 e s) =
     (if curtainPosition s = POSITION_CLOSED then motor_part s else (MOTOR_CLOSING, POSITION_PARTIAL))"
  by (simp add: closeCurtain_v20_def Let_def motor_part_def io_defs)

lemma stopMotor_v20_motor: "motor_part (stopMotor_v20 s) = (MOTOR_STOPPED, curtainPosition s)"
  by (simp add: stopMotor_v20_def Let_def motor_part_def io_defs)

lemma moving_is_partial_transfer:
  "motor_part s' = motor_part s \<Longrightarrow> moving_is_partial s \<Longrightarrow> moving_is_partial s'"
  by (simp add: motor_part_def moving_is_partial_def)

lemma moving_is_partial_v20:
  "moving_is_partial s \<Longrightarrow> moving_is_partial (openCurtain_v20 e s)"
  "moving_is_partial s \<Longrightarrow> moving_is_partial (closeCurtain_v20 e s)"
  "moving_is_partial (stopMotor_v20 s)"
  using openCurtain_v20_motor[of e s] closeCurtain_v20_motor[of e s] stopMotor_v20_motor[of s]
  by (auto simp: motor_part_def moving_is_partial_def split: if_splits)

lemma processCommand_v20_effect:
  assumes "processCommand_v20 e c s = Inr s'"
  shows "light_part s' = light_part s"
    and "s' = openCurtain_v20 e s \<or> s' = closeCurtain_v20 e s \<or> s' = stopMotor_v20 s \<or>
      motor_part s' = motor_part s"
  using assms
  unfolding processCommand_v20_def Let_def
  by (auto dest: sendStatusReport_v20_frame split: if_splits sum.splits)

lemma processSerialCommands_v20_light:
  "processSerialCommands_v20 e input s = Inr s' \<Longrightarrow> light_part s' = light_part s"
proof (induction input arbitrary: s)
  case Nil
  then show ?case by simp
next
  case (Cons c cs)
  then show ?case
    by (auto split: if_splits sum.splits dest!: processCommand_v20_effect(1))
qed

lemma processSerialCommands_v20_moving:
  "processSerialCommands_v20 e input s = Inr s' \<Longrightarrow> moving_is_partial s \<Longrightarrow> moving_is_partial s'"
proof (induction input arbitrary: s)
  case Nil
  then show ?case by simp
next
  case (Cons c cs)
  have buf: "\<And>x b. moving_is_partial x \<Longrightarrow> moving_is_partial (x\<lparr>commandBuffer := b\<rparr>)"
    by (erule moving_is_partial_transfer[rotated]) simp
  have cmd: "\<And>x y l. processCommand_v20 e l x = Inr y \<Longrightarrow> moving_is_partial x \<Longrightarrow> moving_is_partial y"
    by (drule processCommand_v20_effect(2))
       (auto intro: moving_is_partial_v20 moving_is_partial_transfer)
  from Cons.prems show ?case
    by (auto split: if_splits sum.splits intro: Cons.IH buf dest: cmd)
qed

lemma loop_before_timeout_v20_parts:
  assumes "loop_before_timeout_v20 t e input s = Inr s3"
  obtains s1 s2 where "processSerialCommands_v20 e input s = Inr s1"
    and "s2 = s1 \<or> s2 = (readLightSensor (analogRead e) s1)\<lparr>lastLightRead := t\<rparr>"
    and "light_part s3 = light_part s2" and "motor_part s3 = motor_part s2"
    and "motor_part s2 = motor_part s1"
proof -
  from assms obtain s1 where s1: "processSerialCommands_v20 e input s = Inr s1"
    by (auto simp: loop_before_timeout_v20_def split: sum.splits)
  define s2 where "s2 = (if t - lastLightRead s1 \<ge> LIGHT_READ_INTERVAL
                     then (readLightSensor (analogRead e) s1)\<lparr>lastLightRead := t\<rparr>
                     else s1)"
  have m: "motor_part s2 = motor_part s1"
    by (simp add: s2_def) (simp add: readLightSensor_def Let_def motor_part_def io_defs)
  have "s3 = s2 \<or> (\<exists>x. sendStatusReport_v20 e s2 = Inr x \<and> s3 = x\<lparr>lastStatusReport := t\<rparr>)"
    using assms s1 by (auto simp: loop_before_timeout_v20_def s2_def Let_def split: if_splits sum.splits)
  then have "light_part s3 = light_part s2" "motor_part s3 = motor_part s2"
    by (auto dest: sendStatusReport_v20_frame)
  moreover have "s2 = s1 \<or> s2 = (readLightSensor (analogRead e) s1)\<lparr>lastLightRead := t\<rparr>"
    by (simp add: s2_def)
  ultimately show thesis using that s1 m by blast
qed

lemma check_motor_timeout_v20_light [simp]:
  "light_part (check_motor_timeout_v20 t s) = light_part s"
  by (simp add: check_motor_timeout_v20_def)

lemma check_motor_timeout_v20_moving:
  "moving_is_partial s \<Longrightarrow> moving_is_partial (check_motor_timeout_v20 t s)"
  unfolding check_motor_timeout_v20_def
  by (auto intro: moving_is_partial_transfer[of "Serial_println x (stopMotor_v20 s)" "stopMotor_v20 s" for x]
      moving_is_partial_v20)

lemma loop_v20_light_inv:
  assumes "loop_v20 t e input s = Inr s'" "light_inv s" "env_ok e"
  shows "light_inv s'"
proof -
  from assms(1) obtain s3 where s3: "loop_before_timeout_v20 t e input s = Inr s3"
    and s': "s' = check_motor_timeout_v20 t s3"
    by (auto simp: loop_v20_def split: sum.splits)
  from s3 obtain s1 s2 where s1: "processSerialCommands_v20 e input s = Inr s1"
    and s2: "s2 = s1 \<or> s2 = (readLightSensor (analogRead e) s1)\<lparr>lastLightRead := t\<rparr>"
    and l3: "light_part s3 = light_part s2"
    by (rule loop_before_timeout_v20_parts) blast
  from processSerialCommands_v20_light[OF s1] assms(2) have i1: "light_inv s1"
    by (rule light_inv_transfer)
  from assms(3) have r: "0 \<le> analogRead e" "analogRead e \<le> 1023"
    by (simp_all add: env_ok_def)
  have "light_inv ((readLightSensor (analogRead e) s1)\<lparr>lastLightRead := t\<rparr>)"
    using readLightSensor_light_inv[OF i1 r] by (rule light_inv_transfer[rotated]) simp
  with i1 s2 have "light_inv s2" by auto
  with l3 have "light_inv s3" by (rule light_inv_transfer)
  then show ?thesis unfolding s' by (rule light_inv_transfer[rotated]) simp
qed

lemma loop_v20_moving:
  assumes "loop_v20 t e input s = Inr s'" "moving_is_partial s"
  shows "moving_is_partial s'"
proof -
  from assms(1) obtain s3 where s3: "loop_before_timeout_v20 t e input s = Inr s3"
    and s': "s' = check_motor_timeout_v20 t s3"
    by (auto simp: loop_v20_def split: sum.splits)
  from s3 obtain s1 s2 :: directional where s1: "processSerialCommands_v20 e input s = Inr s1"
    and m3: "motor_part s3 = motor_part s2" and m2: "motor_part s2 = motor_part s1"
    by (rule loop_before_timeout_v20_parts) blast
  from processSerialCommands_v20_moving[OF s1 assms(2)] have "moving_is_partial s1" .
  with m2 have "moving_is_partial s2" by (rule moving_is_partial_transfer)
  with m3 have "moving_is_partial s3" by (rule moving_is_partial_transfer)
  then show ?thesis unfolding s' by (rule check_motor_timeout_v20_moving)
qed

lemma setup_v20_parts:
  "light_part (setup_v20 rom) = (replicate LIGHT_SAMPLES 0, 0, 0)"
  "motor_part (setup_v20 rom) = (MOTOR_STOPPED, POSITION_UNKNOWN)"
  by (simp_all add: setup_v20_def Let_def)
     (simp_all add: light_part_def motor_part_def initial_v20_def digitalWrite_def)

lemma reachable_v20_light_inv: "reachable_v20 s \<Longrightarrow> light_inv s"
proof (induction rule: reachable_v20.induct)
  case (boot_v20 rom)
  have "list_all (\<lambda>r. 0 \<le> r \<and> r \<le> 1023) (replicate n (0::int))" "sum_list (replicate n (0::int)) = 0" for n
    by (induction n) simp_all
  then show ?case using setup_v20_parts(1)[of rom]
    by (simp add: light_part_def light_inv_def LIGHT_SAMPLES_def)
next
  case (tick_v20 s e currentTime input s')
  then show ?case by (auto intro: loop_v20_light_inv)
next
  case (drain_v20 s e input s')
  from processSerialCommands_v20_light[OF drain_v20.hyps(3)] drain_v20.IH show ?case
    by (rule light_inv_transfer)
qed

lemma reachable_v20_moving: "reachable_v20 s \<Longrightarrow> moving_is_partial s"
proof (induction rule: reachable_v20.induct)
  case (boot_v20 rom)
  show ?case using setup_v20_parts(2)[of rom]
    by (simp add: motor_part_def moving_is_partial_def)
next
  case (tick_v20 s e currentTime input s')
  then show ?case by (auto intro: loop_v20_moving)
next
  case (drain_v20 s e input s')
  then show ?case by (auto intro: processSerialCommands_v20_moving)
qed

subsection \<open>Claim C4: the running total of the light filter\<close>

lemma light_inv_exact:
  assumes "light_inv s" "0 \<le> r" "r \<le> 1023"
  shows "exact_running_total r s"
proof -
  let ?s = "readLightSensor r s"
  have inv: "light_inv ?s" using assms by (rule readLightSensor_light_inv)
  then have tot: "lightTotal ?s = sum_list (lightReadings ?s)" and len: "length (lightReadings ?s) = 10"
    and all: "list_all (\<lambda>r. 0 \<le> r \<and> r \<le> 1023) (lightReadings ?s)"
    by (simp_all add: light_inv_def LIGHT_SAMPLES_def)
  from sum_list_bounds[OF all] tot have nn: "0 \<le> lightTotal ?s" by simp
  have avg: "lightAverage ?s = lightTotal ?s div 10"
    using nn by (simp add: readLightSensor_fields(4) LIGHT_SAMPLES_def c_div_nonneg)
  have "0 \<le> lightAverage ?s" "10 * lightAverage ?s \<le> lightTotal ?s"
    "lightTotal ?s < 10 * lightAverage ?s + 10"
    using nn unfolding avg by simp_all
  then show ?thesis
    using tot len
    by (simp add: exact_running_total_def Let_def LIGHT_SAMPLES_def readLightSensor_fields(1,4,5))
qed


text \<open>
  Claim C4. In every state the sketch can be in (version 2.1 and version 2.0), and for
  every sample between 0 and 1023, \<open>readLightSensor\<close> leaves the running total
  \<open>lightTotal\<close> equal to the exact integer sum of the ten buffer entries, however many
  samples came before; the sample has replaced the entry at the old index; and the average
  it stores and reports is the total divided by ten with truncating integer division.
\<close>

theorem readLightSensor_exact_running_total:
  fixes s :: spinning and d :: directional
  shows "(reachable s \<and> 0 \<le> reading \<and> reading \<le> 1023 \<longrightarrow> exact_running_total reading s) \<and>
         (reachable_v20 d \<and> 0 \<le> reading \<and> reading \<le> 1023 \<longrightarrow> exact_running_total reading d)"
  by (auto intro: light_inv_exact reachable_light_inv reachable_v20_light_inv)

lemma reachable_booted: "reachable booted"
  unfolding booted_def by (rule reachable.boot) (simp_all add: LIGHT_SAMPLES_def list_all_iff)

lemma reachable_booted_v20: "reachable_v20 booted_v20"
  unfolding booted_v20_def by (rule reachable_v20.boot_v20)

theorem readLightSensor_exact_running_total_witness:
  "exact_running_total 700 booted \<and> lightTotal (readLightSensor 700 booted) = 5200 \<and>
   lightAverage (readLightSensor 700 booted) = 520 \<and>
   exact_running_total 700 booted_v20 \<and> lightTotal (readLightSensor 700 booted_v20) = 700 \<and>
   lightAverage (readLightSensor 700 booted_v20) = 70"
proof -
  have "lightTotal (readLightSensor 700 booted) = 5200" "lightAverage (readLightSensor 700 booted) = 520"
    "lightTotal (readLightSensor 700 booted_v20) = 700" "lightAverage (readLightSensor 700 booted_v20) = 70"
    by code_simp+
  then show ?thesis
    using readLightSensor_exact_running_total[where s = booted and reading = 700 and d = booted_v20]
      reachable_booted reachable_booted_v20
    by simp
qed

subsection \<open>Claim C10: a stopped motor is never at a partial position (version 2.1)\<close>

lemma stopped_not_partial_steps:
  "stopped_not_partial s \<Longrightarrow> stopped_not_partial (openCurtain e s)"
  "stopped_not_partial s \<Longrightarrow> stopped_not_partial (closeCurtain e s)"
  "stopped_not_partial s \<Longrightarrow> stopped_not_partial (stopMotor s)"
  using openCurtain_motor[of e s] closeCurtain_motor[of e s] stopMotor_motor[of s]
  by (cases "motorState s"; auto simp: motor_part_def stopped_not_partial_def split: if_splits)+

text \<open>
  Claim C10. In the spinning-motor sketch every reachable state satisfies: if the motor is
  stopped, the position is not partial. The property holds after \<open>setup()\<close> and is
  preserved by \<open>openCurtain\<close>, \<open>closeCurtain\<close>, \<open>stopMotor\<close>, \<open>setMotorSpeed\<close> and
  the timeout check of \<open>loop()\<close>.
\<close>

theorem stopped_is_never_partial:
  "(reachable s \<longrightarrow> stopped_not_partial s) \<and>
   stopped_not_partial (setup_v21 rom readings) \<and>
   (stopped_not_partial s \<longrightarrow> stopped_not_partial (openCurtain e s)) \<and>
   (stopped_not_partial s \<longrightarrow> stopped_not_partial (closeCurtain e s)) \<and>
   (stopped_not_partial s \<longrightarrow> stopped_not_partial (stopMotor s)) \<and>
   (stopped_not_partial s \<and> setMotorSpeed speedPercent s = Inr s' \<longrightarrow> stopped_not_partial s') \<and>
   (stopped_not_partial s \<longrightarrow> stopped_not_partial (check_motor_timeout currentTime s))"
proof -
  have a: "reachable s \<longrightarrow> stopped_not_partial s"
    using reachable_motor_inv[of s] by (simp add: motor_inv_def)
  have b: "stopped_not_partial (setup_v21 rom readings)"
    using setup_v21_motor[of rom readings] by (simp add: motor_part_def stopped_not_partial_def)
  have c: "stopped_not_partial s \<and> setMotorSpeed speedPercent s = Inr s' \<longrightarrow> stopped_not_partial s'"
    using setMotorSpeed_frame(2)[of speedPercent s s']
    by (auto simp: motor_part_def stopped_not_partial_def)
  have d: "stopped_not_partial s \<longrightarrow> stopped_not_partial (check_motor_timeout currentTime s)"
    using stopMotor_motor[of s]
    by (cases "motorState s")
       (auto simp: check_motor_timeout_def motor_part_def stopped_not_partial_def io_defs
        split: if_splits)
  from a b c d show ?thesis by (simp add: stopped_not_partial_steps)
qed

theorem stopped_is_never_partial_witness:
  "stopped_not_partial booted \<and> motorState booted = MOTOR_STOPPED \<and>
   curtainPosition booted = POSITION_UNKNOWN \<and>
   motorState (openCurtain (at_time 1000) booted) = MOTOR_OPENING \<and>
   stopped_not_partial (stopMotor (openCurtain (at_time 1000) booted)) \<and>
   motorState (stopMotor (openCurtain (at_time 1000) booted)) = MOTOR_STOPPED \<and>
   curtainPosition (stopMotor (openCurtain (at_time 1000) booted)) = POSITION_OPEN"
proof -
  have "motorState booted = MOTOR_STOPPED" "curtainPosition booted = POSITION_UNKNOWN"
    "motorState (openCurtain (at_time 1000) booted) = MOTOR_OPENING"
    "motorState (stopMotor (openCurtain (at_time 1000) booted)) = MOTOR_STOPPED"
    "curtainPosition (stopMotor (openCurtain (at_time 1000) booted)) = POSITION_OPEN"
    by code_simp+
  moreover have "stopped_not_partial booted"
    using stopped_is_never_partial[where s = booted] reachable_booted by simp
  moreover have "stopped_not_partial (stopMotor (openCurtain (at_time 1000) booted))"
    using stopped_is_never_partial[where s = booted and e = "at_time 1000"]
      stopped_is_never_partial[where s = "openCurtain (at_time 1000) booted"]
      \<open>stopped_not_partial booted\<close>
    by simp
  ultimately show ?thesis by simp
qed

lemmas parse_defs = trim_def toUpperCase_def toupper_def isspace_def indexOf_def substring_def
  substring_from_def

lemma processCommand_open_close:
  "processCommand e ''CLOSE_CURTAIN'' s = Inr (closeCurtain e s)"
  "processCommand e ''OPEN_CURTAIN'' s = Inr (openCurtain e s)"
  by (simp_all add: processCommand_def parse_defs)

lemma processCommand_v20_open_close:
  "processCommand_v20 e ''CLOSE_CURTAIN'' d = Inr (closeCurtain_v20 e d)"
  "processCommand_v20 e ''OPEN_CURTAIN'' d = Inr (openCurtain_v20 e d)"
  by (simp_all add: processCommand_v20_def parse_defs)

lemma closeCurtain_moving:
  assumes "curtainPosition s = POSITION_PARTIAL"
  shows "closeCurtain e s =
     s\<lparr>motorPin := MOTOR_SPEED_CLOSING, currentMotorSpeed := MOTOR_SPEED_CLOSING,
       motorState := MOTOR_CLOSING, motorStartTime := millis e,
       curtainPosition := POSITION_PARTIAL,
       serialOut := serialOut s @ ''MOTOR:CLOSING at speed 128'' @ crlf @ ''POSITION:CLOSING'' @ crlf\<rparr>"
  using assms
  by (simp add: closeCurtain_def Let_def io_defs MOTOR_SPEED_CLOSING_def show_int_def show_digits.simps)

lemma openCurtain_moving:
  assumes "curtainPosition s = POSITION_PARTIAL"
  shows "openCurtain e s =
     s\<lparr>motorPin := MOTOR_SPEED_OPENING, currentMotorSpeed := MOTOR_SPEED_OPENING,
       motorState := MOTOR_OPENING, motorStartTime := millis e,
       curtainPosition := POSITION_PARTIAL,
       serialOut := serialOut s @ ''MOTOR:OPENING at speed 255'' @ crlf @ ''POSITION:OPENING'' @ crlf\<rparr>"
  using assms
  by (simp add: openCurtain_def Let_def io_defs MOTOR_SPEED_OPENING_def show_int_def show_digits.simps)

lemma closeCurtain_v20_moving:
  assumes "curtainPosition d = POSITION_PARTIAL"
  shows "closeCurtain_v20 e d =
     d\<lparr>motorDirPin := False, motorPin := motorSpeed d,
       motorState := MOTOR_CLOSING, motorStartTime := millis e,
       curtainPosition := POSITION_PARTIAL,
       serialOut := serialOut d @ ''MOTOR:CLOSING'' @ crlf @ ''POSITION:CLOSING'' @ crlf\<rparr>"
  using assms
  by (simp add: closeCurtain_v20_def Let_def io_defs)

lemma openCurtain_v20_moving:
  assumes "curtainPosition d = POSITION_PARTIAL"
  shows "openCurtain_v20 e d =
     d\<lparr>motorDirPin := True, motorPin := motorSpeed d,
       motorState := MOTOR_OPENING, motorStartTime := millis e,
       curtainPosition := POSITION_PARTIAL,
       serialOut := serialOut d @ ''MOTOR:OPENING'' @ crlf @ ''POSITION:OPENING'' @ crlf\<rparr>"
  using assms
  by (simp add: openCurtain_v20_def Let_def io_defs)

subsection \<open>Claim C2: reversing the direction\<close>

text \<open>
  Claim C2, amended. The claim says that the motor state never goes from opening to
  closing (or back) without passing through stopped. The code has no such step: in every
  reachable state of versions 2.1 and 2.0, \<open>CLOSE_CURTAIN\<close> while the motor is opening
  sets the motor state to closing at once (drive value, start time and partial position
  set, the two lines \<open>MOTOR:CLOSING\<close> and \<open>POSITION:CLOSING\<close> sent, nothing else changed and
  no stop reported), and \<open>OPEN_CURTAIN\<close> while the motor is closing sets it to opening at
  once. The commands do nothing only when the position is already closed (or open), which
  is never the case while the motor moves.
\<close>

theorem reversal_is_direct:
  fixes s :: spinning and d :: directional
  shows
  "(reachable s \<and> motorState s = MOTOR_OPENING \<longrightarrow>
      processCommand e ''CLOSE_CURTAIN'' s =
        Inr (s\<lparr>motorPin := MOTOR_SPEED_CLOSING, currentMotorSpeed := MOTOR_SPEED_CLOSING,
               motorState := MOTOR_CLOSING, motorStartTime := millis e,
               curtainPosition := POSITION_PARTIAL,
               serialOut := serialOut s @ ''MOTOR:CLOSING at speed 128'' @ crlf @
                            ''POSITION:CLOSING'' @ crlf\<rparr>)) \<and>
   (reachable s \<and> motorState s = MOTOR_CLOSING \<longrightarrow>
      processCommand e ''OPEN_CURTAIN'' s =
        Inr (s\<lparr>motorPin := MOTOR_SPEED_OPENING, currentMotorSpeed := MOTOR_SPEED_OPENING,
               motorState := MOTOR_OPENING, motorStartTime := millis e,
               curtainPosition := POSITION_PARTIAL,
               serialOut := serialOut s @ ''MOTOR:OPENING at speed 255'' @ crlf @
                            ''POSITION:OPENING'' @ crlf\<rparr>)) \<and>
   (reachable_v20 d \<and> motorState d = MOTOR_OPENING \<longrightarrow>
      processCommand_v20 e ''CLOSE_CURTAIN'' d =
        Inr (d\<lparr>motorDirPin := False, motorPin := motorSpeed d,
               motorState := MOTOR_CLOSING, motorStartTime := millis e,
               curtainPosition := POSITION_PARTIAL,
               serialOut := serialOut d @ ''MOTOR:CLOSING'' @ crlf @ ''POSITION:CLOSING'' @ crlf\<rparr>)) \<and>
   (reachable_v20 d \<and> motorState d = MOTOR_CLOSING \<longrightarrow>
      processCommand_v20 e ''OPEN_CURTAIN'' d =
        Inr (d\<lparr>motorDirPin := True, motorPin := motorSpeed d,
               motorState := MOTOR_OPENING, motorStartTime := millis e,
               curtainPosition := POSITION_PARTIAL,
               serialOut := serialOut d @ ''MOTOR:OPENING'' @ crlf @ ''POSITION:OPENING'' @ crlf\<rparr>))"
proof -
  have s: "reachable s \<Longrightarrow> motorState s \<noteq> MOTOR_STOPPED \<Longrightarrow> curtainPosition s = POSITION_PARTIAL"
    using reachable_motor_inv[of s] by (simp add: motor_inv_def moving_is_partial_def)
  have d: "reachable_v20 d \<Longrightarrow> motorState d \<noteq> MOTOR_STOPPED \<Longrightarrow> curtainPosition d = POSITION_PARTIAL"
    using reachable_v20_moving[of d] by (simp add: moving_is_partial_def)
  show ?thesis
    using s d
    by (auto simp: processCommand_open_close processCommand_v20_open_close
        closeCurtain_moving openCurtain_moving closeCurtain_v20_moving openCurtain_v20_moving)
qed

lemma run_reachable:
  "reachable s \<Longrightarrow> list_all (\<lambda>p. env_ok (fst (snd p))) passes \<Longrightarrow> run passes s = Inr s'
   \<Longrightarrow> reachable s'"
proof (induction passes arbitrary: s)
  case Nil
  then show ?case by simp
next
  case (Cons p ps)
  obtain t e input where p: "p = (t, e, input)" by (cases p)
  from Cons.prems obtain s1 where s1: "loop t e input s = Inr s1" and r: "run ps s1 = Inr s'"
    by (auto simp: p split: sum.splits)
  from Cons.prems(1,2) s1 have "reachable s1"
    by (auto simp: p intro: reachable.tick)
  with Cons.IH[of s1] Cons.prems(2) r show ?case by simp
qed

lemma run_v20_reachable:
  "reachable_v20 s \<Longrightarrow> list_all (\<lambda>p. env_ok (fst (snd p))) passes \<Longrightarrow> run_v20 passes s = Inr s'
   \<Longrightarrow> reachable_v20 s'"
proof (induction passes arbitrary: s)
  case Nil
  then show ?case by simp
next
  case (Cons p ps)
  obtain t e input where p: "p = (t, e, input)" by (cases p)
  from Cons.prems obtain s1 where s1: "loop_v20 t e input s = Inr s1" and r: "run_v20 ps s1 = Inr s'"
    by (auto simp: p split: sum.splits)
  from Cons.prems(1,2) s1 have "reachable_v20 s1"
    by (auto simp: p intro: reachable_v20.tick_v20)
  with Cons.IH[of s1] Cons.prems(2) r show ?case by simp
qed

lemma env_ok_at_time: "env_ok (at_time t)"
  by (simp add: env_ok_def at_time_def)

theorem reversal_is_direct_witness:
  "on_return motorState (run [(1000, at_time 1000, line ''OPEN_CURTAIN'')] booted) = Some MOTOR_OPENING \<and>
   on_return motorState
     (case run [(1000, at_time 1000, line ''OPEN_CURTAIN'')] booted of
        Inl f \<Rightarrow> Inl f
      | Inr s \<Rightarrow> processCommand (at_time 1500) ''CLOSE_CURTAIN'' s) = Some MOTOR_CLOSING"
proof -
  have a: "on_return motorState (run [(1000, at_time 1000, line ''OPEN_CURTAIN'')] booted) = Some MOTOR_OPENING"
    by code_simp
  then obtain s where s: "run [(1000, at_time 1000, line ''OPEN_CURTAIN'')] booted = Inr s"
    and m: "motorState s = MOTOR_OPENING"
    by (auto simp: on_return_def split: sum.splits)
  from run_reachable[OF reachable_booted _ s] have "reachable s"
    by (simp add: env_ok_at_time)
  with m reversal_is_direct[where s = s and e = "at_time 1500"]
  have "on_return motorState (processCommand (at_time 1500) ''CLOSE_CURTAIN'' s) = Some MOTOR_CLOSING"
    by (simp add: on_return_def)
  with a s show ?thesis by simp
qed

theorem reversal_counterexample:
  "on_return motorState (run [(1000, at_time 1000, line ''OPEN_CURTAIN'')] booted) = Some MOTOR_OPENING \<and>
   on_return motorState
     (run [(1000, at_time 1000, line ''OPEN_CURTAIN''),
           (1500, at_time 1500, line ''CLOSE_CURTAIN'')] booted) = Some MOTOR_CLOSING \<and>
   on_return motorState (run_v20 [(1000, at_time 1000, line ''OPEN_CURTAIN'')] booted_v20) = Some MOTOR_OPENING \<and>
   on_return motorState
     (run_v20 [(1000, at_time 1000, line ''OPEN_CURTAIN''),
           (1500, at_time 1500, line ''CLOSE_CURTAIN'')] booted_v20) = Some MOTOR_CLOSING"
  by code_simp

subsection \<open>Claim C1: the position when the motor stops\<close>

lemma stopMotor_position:
  "curtainPosition (stopMotor s) =
     (if motorState s = MOTOR_OPENING then POSITION_OPEN
      else if motorState s = MOTOR_CLOSING then POSITION_CLOSED
      else curtainPosition s)"
  "motorState (stopMotor s) = MOTOR_STOPPED" "motorPin (stopMotor s) = 0"
  by (simp_all add: stopMotor_def Let_def io_defs)

lemma stopMotor_v20_position:
  "curtainPosition (stopMotor_v20 d) = curtainPosition d"
  "motorState (stopMotor_v20 d) = MOTOR_STOPPED" "motorPin (stopMotor_v20 d) = 0"
  by (simp_all add: stopMotor_v20_def Let_def io_defs)

text \<open>
  Claim C1 holds in version 2.1 (\<open>stopMotor_position\<close>) and fails in version 2.0, whose
  \<open>stopMotor\<close> tests \<open>motorState\<close> after overwriting it (\<open>stopMotor_v20_position\<close>).
  Version 2.0, booted on an erased EEPROM: after \<open>OPEN_CURTAIN\<close> the motor is opening; after
  \<open>STOP_MOTOR\<close>, and just as well after the timeout, the motor is stopped and the position
  is still partial. Version 2.1 on the same input ends with the position open.
\<close>

theorem stopMotor_v20_leaves_position_partial:
  "on_return motor_part (run_v20 [(1000, at_time 1000, line ''OPEN_CURTAIN'')] booted_v20) =
     Some (MOTOR_OPENING, POSITION_PARTIAL) \<and>
   on_return motor_part
     (run_v20 [(1000, at_time 1000, line ''OPEN_CURTAIN''),
               (2000, at_time 2000, line ''STOP_MOTOR'')] booted_v20) =
     Some (MOTOR_STOPPED, POSITION_PARTIAL) \<and>
   on_return motor_part
     (run_v20 [(1000, at_time 1000, line ''OPEN_CURTAIN''),
               (31000, at_time 31000, [])] booted_v20) =
     Some (MOTOR_STOPPED, POSITION_PARTIAL) \<and>
   on_return motor_part
     (run [(1000, at_time 1000, line ''OPEN_CURTAIN''),
           (2000, at_time 2000, line ''STOP_MOTOR'')] booted) =
     Some (MOTOR_STOPPED, POSITION_OPEN) \<and>
   on_return motor_part
     (run [(1000, at_time 1000, line ''OPEN_CURTAIN''),
           (31000, at_time 31000, [])] booted) =
     Some (MOTOR_STOPPED, POSITION_OPEN)"
  by code_simp

subsection \<open>Claim C5: the safety timeout\<close>

lemma stopMotor_output:
  "serialOut (stopMotor s) =
     serialOut s @ ''MOTOR:STOPPED'' @ crlf @
     (if motorState s = MOTOR_OPENING then ''POSITION:OPEN'' @ crlf
      else if motorState s = MOTOR_CLOSING then ''POSITION:CLOSED'' @ crlf else [])"
  by (simp add: stopMotor_def Let_def io_defs)

lemma stopMotor_v20_output:
  "serialOut (stopMotor_v20 d) = serialOut d @ ''MOTOR:STOPPED'' @ crlf"
  by (simp add: stopMotor_v20_def Let_def io_defs)

text \<open>
  Claim C5. On every pass of \<open>loop()\<close> (versions 2.1 and 2.0) that reaches the timeout
  check with the motor not stopped and \<open>currentTime - motorStartTime\<close> at least 30000, in
  either direction, the pass returns with the motor stopped and the drive output zero, and
  the last line it sends is \<open>ERROR:MOTOR_TIMEOUT\<close>, after the lines of \<open>stopMotor\<close>.
\<close>

theorem motor_timeout_forces_stop:
  fixes s :: spinning and d :: directional
  shows
  "(loop_before_timeout currentTime e input s = Inr s3 \<and> motorState s3 \<noteq> MOTOR_STOPPED \<and>
    MOTOR_TIMEOUT \<le> currentTime - motorStartTime s3 \<longrightarrow>
      (\<exists>s'. loop currentTime e input s = Inr s' \<and> motorState s' = MOTOR_STOPPED \<and>
         motorPin s' = 0 \<and> currentMotorSpeed s' = 0 \<and>
         serialOut s' = serialOut s3 @ ''MOTOR:STOPPED'' @ crlf @
           (if motorState s3 = MOTOR_OPENING then ''POSITION:OPEN'' else ''POSITION:CLOSED'') @ crlf @
           ''ERROR:MOTOR_TIMEOUT'' @ crlf)) \<and>
   (loop_before_timeout_v20 currentTime e input d = Inr d3 \<and> motorState d3 \<noteq> MOTOR_STOPPED \<and>
    MOTOR_TIMEOUT \<le> currentTime - motorStartTime d3 \<longrightarrow>
      (\<exists>d'. loop_v20 currentTime e input d = Inr d' \<and> motorState d' = MOTOR_STOPPED \<and>
         motorPin d' = 0 \<and>
         serialOut d' = serialOut d3 @ ''MOTOR:STOPPED'' @ crlf @ ''ERROR:MOTOR_TIMEOUT'' @ crlf))"
proof (intro conjI impI)
  assume a: "loop_before_timeout currentTime e input s = Inr s3 \<and> motorState s3 \<noteq> MOTOR_STOPPED \<and>
    MOTOR_TIMEOUT \<le> currentTime - motorStartTime s3"
  then have l: "loop currentTime e input s = Inr (Serial_println ''ERROR:MOTOR_TIMEOUT'' (stopMotor s3))"
    by (simp add: loop_def check_motor_timeout_def)
  from a have m: "motorState s3 = MOTOR_OPENING \<or> motorState s3 = MOTOR_CLOSING"
    by (cases "motorState s3") simp_all
  have "currentMotorSpeed (stopMotor s3) = 0"
    by (simp add: stopMotor_def Let_def io_defs MOTOR_SPEED_STOPPED_def)
  with m show "\<exists>s'. loop currentTime e input s = Inr s' \<and> motorState s' = MOTOR_STOPPED \<and>
         motorPin s' = 0 \<and> currentMotorSpeed s' = 0 \<and>
         serialOut s' = serialOut s3 @ ''MOTOR:STOPPED'' @ crlf @
           (if motorState s3 = MOTOR_OPENING then ''POSITION:OPEN'' else ''POSITION:CLOSED'') @ crlf @
           ''ERROR:MOTOR_TIMEOUT'' @ crlf"
    unfolding l
    by (auto simp: Serial_println_def stopMotor_position stopMotor_output)
next
  assume a: "loop_before_timeout_v20 currentTime e input d = Inr d3 \<and> motorState d3 \<noteq> MOTOR_STOPPED \<and>
    MOTOR_TIMEOUT \<le> currentTime - motorStartTime d3"
  then have l: "loop_v20 currentTime e input d = Inr (Serial_println ''ERROR:MOTOR_TIMEOUT'' (stopMotor_v20 d3))"
    by (simp add: loop_v20_def check_motor_timeout_v20_def)
  show "\<exists>d'. loop_v20 currentTime e input d = Inr d' \<and> motorState d' = MOTOR_STOPPED \<and>
         motorPin d' = 0 \<and>
         serialOut d' = serialOut d3 @ ''MOTOR:STOPPED'' @ crlf @ ''ERROR:MOTOR_TIMEOUT'' @ crlf"
    unfolding l
    by (simp add: Serial_println_def stopMotor_v20_position stopMotor_v20_output)
qed

theorem motor_timeout_forces_stop_witness:
  "on_return motorState (loop 31000 (at_time 31000) [] (openCurtain (at_time 1000) booted)) =
     Some MOTOR_STOPPED \<and>
   on_return motorPin (loop 31000 (at_time 31000) [] (openCurtain (at_time 1000) booted)) = Some 0 \<and>
   motorPin (openCurtain (at_time 1000) booted) = 255 \<and>
   on_return motorState (loop_v20 31000 (at_time 31000) [] (closeCurtain_v20 (at_time 1000) booted_v20)) =
     Some MOTOR_STOPPED \<and>
   on_return motorPin (loop_v20 31000 (at_time 31000) [] (closeCurtain_v20 (at_time 1000) booted_v20)) =
     Some 0 \<and>
   motorPin (closeCurtain_v20 (at_time 1000) booted_v20) = 255"
proof -
  let ?s = "openCurtain (at_time 1000) booted" and ?d = "closeCurtain_v20 (at_time 1000) booted_v20"
  have "on_return motorState (loop_before_timeout 31000 (at_time 31000) [] ?s) = Some MOTOR_OPENING"
    "on_return motorStartTime (loop_before_timeout 31000 (at_time 31000) [] ?s) = Some 1000"
    by code_simp+
  then obtain s3 where s3: "loop_before_timeout 31000 (at_time 31000) [] ?s = Inr s3"
    "motorState s3 = MOTOR_OPENING" "motorStartTime s3 = 1000"
    by (auto simp: on_return_def split: sum.splits)
  have "on_return motorState (loop_before_timeout_v20 31000 (at_time 31000) [] ?d) = Some MOTOR_CLOSING"
    "on_return motorStartTime (loop_before_timeout_v20 31000 (at_time 31000) [] ?d) = Some 1000"
    by code_simp+
  then obtain d3 where d3: "loop_before_timeout_v20 31000 (at_time 31000) [] ?d = Inr d3"
    "motorState d3 = MOTOR_CLOSING" "motorStartTime d3 = 1000"
    by (auto simp: on_return_def split: sum.splits)
  have p: "motorPin ?s = 255" "motorPin ?d = 255"
    by code_simp+
  from motor_timeout_forces_stop[where s = ?s and ?s3.0 = s3 and d = ?d and ?d3.0 = d3
      and currentTime = 31000 and e = "at_time 31000" and input = "[]"] s3 d3 p
  show ?thesis
    by (auto simp: on_return_def MOTOR_TIMEOUT_def)
qed

subsection \<open>Claim C3: the range of the light percentage\<close>

lemma percent_bounds:
  assumes "0 \<le> x" "x \<le> 1023"
  shows "0 \<le> x * 100 div 1023 \<and> x * 100 div 1023 \<le> (100::int)"
proof -
  have "x * 100 div 1023 \<le> 102300 div 1023"
    using assms by (intro zdiv_mono1) simp_all
  moreover have "0 \<le> x * 100 div 1023"
    using assms by (simp add: pos_imp_zdiv_nonneg_iff)
  ultimately show ?thesis by simp
qed

lemma map_long_uncalibrated:
  assumes "0 \<le> x" "x \<le> 1023"
  shows "map_long x 0 1023 0 100 = Inr (x * 100 div 1023)"
proof -
  have a: "to_long x = x" "to_long (x * 100) = x * 100"
    using assms by (simp_all add: to_long_id)
  have b: "c_div (x * 100) 1023 = x * 100 div 1023"
    using assms by (simp add: c_div_nonneg)
  have c: "to_long (x * 100 div 1023) = x * 100 div 1023"
    using percent_bounds[OF assms] by (intro to_long_id) linarith+
  have d: "to_long 1023 = 1023" "to_long 100 = 100"
    by (simp_all add: to_long_def)
  show ?thesis by (simp add: map_long_def a b c d)
qed

text \<open>
  Claim C3, amended. The claim says that the division is guarded, so that the result is in
  0..100 for any bounds. The code has no guard: for every smoothed average in 0..1023 and
  bounds that fit an \<open>int\<close>, \<open>getPercentageLight\<close> returns a value in 0..100 when the
  sketch is not calibrated, or is calibrated with bounds that differ (inverted ones
  included); calibrated with equal bounds, it divides by zero.
\<close>

theorem getPercentageLight_range:
  "0 \<le> lightAverage s \<and> lightAverage s \<le> 1023 \<and> is_int (lightMin s) \<and> is_int (lightMax s) \<longrightarrow>
     (isCalibrated s \<and> lightMin s = lightMax s \<longrightarrow> getPercentageLight s = Inl DivisionByZero) \<and>
     (\<not> isCalibrated s \<or> lightMin s \<noteq> lightMax s \<longrightarrow>
        (\<exists>p. getPercentageLight s = Inr p \<and> 0 \<le> p \<and> p \<le> 100))"
proof (intro impI conjI)
  assume "isCalibrated s \<and> lightMin s = lightMax s"
  then show "getPercentageLight s = Inl DivisionByZero"
    by (simp add: getPercentageLight_def map_long_def to_long_def)
next
  assume r: "0 \<le> lightAverage s \<and> lightAverage s \<le> 1023 \<and> is_int (lightMin s) \<and> is_int (lightMax s)"
    and c: "\<not> isCalibrated s \<or> lightMin s \<noteq> lightMax s"
  show "\<exists>p. getPercentageLight s = Inr p \<and> 0 \<le> p \<and> p \<le> 100"
  proof (cases "isCalibrated s")
    case False
    from r have avg: "0 \<le> lightAverage s" "lightAverage s \<le> 1023" by simp_all
    have "to_int (lightAverage s * 100 div 1023) = lightAverage s * 100 div 1023"
      using percent_bounds[OF avg] by (intro to_int_id) linarith+
    with False percent_bounds[OF avg] show ?thesis
      by (simp add: getPercentageLight_def map_long_uncalibrated[OF avg])
  next
    case True
    with c have ne: "lightMin s \<noteq> lightMax s" by simp
    from r have "- 65535 \<le> lightMax s - lightMin s" "lightMax s - lightMin s \<le> 65535"
      by (simp_all add: is_int_def)
    then have "to_long (lightMax s - lightMin s) = lightMax s - lightMin s"
      by (intro to_long_id) linarith+
    with ne have "to_long (lightMax s - lightMin s) \<noteq> 0" by simp
    with True show ?thesis
      by (simp add: getPercentageLight_def map_long_def constrain_def)
  qed
qed

theorem getPercentageLight_range_witness:
  "(\<exists>p. getPercentageLight (setup_v21 calibrated_rom (replicate 10 500)) = Inr p \<and> 0 \<le> p \<and> p \<le> 100) \<and>
   getPercentageLight (setup_v21 calibrated_rom (replicate 10 500)) = Inr 50 \<and>
   getPercentageLight booted = Inr 48 \<and>
   getPercentageLight (setup_v21 degenerate_rom (replicate 10 500)) = Inl DivisionByZero"
proof -
  let ?s = "setup_v21 calibrated_rom (replicate 10 500)"
  have "lightAverage ?s = 500" "lightMin ?s = 100" "lightMax ?s = 900" "isCalibrated ?s"
    by code_simp+
  with getPercentageLight_range[of ?s]
  have "\<exists>p. getPercentageLight ?s = Inr p \<and> 0 \<le> p \<and> p \<le> 100"
    by (simp add: is_int_def)
  moreover have "getPercentageLight ?s = Inr 50" "getPercentageLight booted = Inr 48"
    "getPercentageLight (setup_v21 degenerate_rom (replicate 10 500)) = Inl DivisionByZero"
    by code_simp+
  ultimately show ?thesis by simp
qed

theorem getPercentageLight_degenerate_counterexample:
  "isCalibrated (setup_v21 degenerate_rom (replicate 10 500)) \<and>
   lightMin (setup_v21 degenerate_rom (replicate 10 500)) = 500 \<and>
   lightMax (setup_v21 degenerate_rom (replicate 10 500)) = 500 \<and>
   lightAverage (setup_v21 degenerate_rom (replicate 10 500)) = 500 \<and>
   getPercentageLight (setup_v21 degenerate_rom (replicate 10 500)) = Inl DivisionByZero \<and>
   on_return serialOut
     (processCommand (at_time 1000) ''READ_LIGHT'' (setup_v21 degenerate_rom (replicate 10 500))) = None"
  by code_simp

subsection \<open>Claim C6: lines of white space\<close>

lemma trim_blank:
  assumes "list_all isspace b"
  shows "trim b = []"
proof -
  from assms have d: "dropWhile isspace b = []"
    by (induction b) simp_all
  show ?thesis by (simp add: trim_def d)
qed

lemma processCommand_blank:
  assumes "list_all isspace b"
  shows "processCommand e b s = Inr (s\<lparr>serialOut := serialOut s @ ''ERROR:UNKNOWN_COMMAND:'' @ crlf\<rparr>)"
  by (simp add: processCommand_def trim_blank[OF assms] toUpperCase_def indexOf_def io_defs)

lemma processCommand_v23_blank:
  assumes "list_all isspace b"
  shows "processCommand_v23 e b s = Inr (s\<lparr>serialOut := serialOut s @ ''ERROR:UNKNOWN_COMMAND:'' @ crlf\<rparr>)"
  by (simp add: processCommand_v23_def trim_blank[OF assms] toUpperCase_def indexOf_def io_defs)

lemma blank_line:
  assumes "list_all blank ws" "list_all blank (commandBuffer s)" "commandBuffer s @ ws \<noteq> []"
    "nl = CHR 0x0A \<or> nl = CHR 0x0D"
  shows "processSerialCommands e (ws @ [nl]) s =
     Inr (s\<lparr>serialOut := serialOut s @ ''ERROR:UNKNOWN_COMMAND:'' @ crlf, commandBuffer := []\<rparr>)"
  using assms
proof (induction ws arbitrary: s)
  case Nil
  then have "list_all isspace (commandBuffer s)"
    by (simp add: list_all_iff blank_def)
  from processCommand_blank[OF this] Nil show ?case by auto
next
  case (Cons c cs)
  from Cons.prems(1) have bc: "blank c" and cs: "list_all blank cs"
    by simp_all
  from bc have c: "c \<noteq> CHR 0x0A" "c \<noteq> CHR 0x0D" "blank c"
    by (simp_all add: blank_def)
  show ?case
  proof (cases "length (commandBuffer s) < MAX_COMMAND_LENGTH")
    case True
    let ?s = "s\<lparr>commandBuffer := commandBuffer s @ [c]\<rparr>"
    have "processSerialCommands e (cs @ [nl]) ?s =
       Inr (?s\<lparr>serialOut := serialOut ?s @ ''ERROR:UNKNOWN_COMMAND:'' @ crlf, commandBuffer := []\<rparr>)"
      using cs c Cons.prems(2,4) by (intro Cons.IH) simp_all
    with True c show ?thesis by simp
  next
    case False
    then have "commandBuffer s @ cs \<noteq> []" by (auto simp: MAX_COMMAND_LENGTH_def)
    from Cons.IH[OF cs Cons.prems(2) this Cons.prems(4)] False c show ?thesis by simp
  qed
qed

lemma blank_line_v23:
  assumes "list_all blank ws" "list_all blank (commandBuffer s)" "commandBuffer s @ ws \<noteq> []"
    "nl = CHR 0x0A \<or> nl = CHR 0x0D"
  shows "processSerialCommands_v23 e (ws @ [nl]) s =
     Inr (s\<lparr>serialOut := serialOut s @ ''ERROR:UNKNOWN_COMMAND:'' @ crlf, commandBuffer := []\<rparr>)"
  using assms
proof (induction ws arbitrary: s)
  case Nil
  then have "list_all isspace (commandBuffer s)"
    by (simp add: list_all_iff blank_def)
  from processCommand_v23_blank[OF this] Nil show ?case by auto
next
  case (Cons c cs)
  from Cons.prems(1) have bc: "blank c" and cs: "list_all blank cs"
    by simp_all
  from bc have c: "c \<noteq> CHR 0x0A" "c \<noteq> CHR 0x0D" "blank c"
    by (simp_all add: blank_def)
  show ?case
  proof (cases "length (commandBuffer s) < MAX_COMMAND_LENGTH")
    case True
    let ?s = "s\<lparr>commandBuffer := commandBuffer s @ [c]\<rparr>"
    have "processSerialCommands_v23 e (cs @ [nl]) ?s =
       Inr (?s\<lparr>serialOut := serialOut ?s @ ''ERROR:UNKNOWN_COMMAND:'' @ crlf, commandBuffer := []\<rparr>)"
      using cs c Cons.prems(2,4) by (intro Cons.IH) simp_all
    with True c show ?thesis by simp
  next
    case False
    then have "commandBuffer s @ cs \<noteq> []" by (auto simp: MAX_COMMAND_LENGTH_def)
    from Cons.IH[OF cs Cons.prems(2) this Cons.prems(4)] False c show ?thesis by simp
  qed
qed

lemma clear_empty_buffer: "commandBuffer s = [] \<Longrightarrow> s\<lparr>commandBuffer := []\<rparr> = s"
  by (cases s) simp

text \<open>
  Claim C6, amended. The claim says that a line of white space is not dispatched. In
  versions 2.1 and 2.3 only the empty line is not: a line end on an empty buffer changes
  nothing and sends nothing, but a line of one or more blanks (spaces, tabs) is handed to
  \<open>processCommand\<close>, which trims it to the empty name and answers
  \<open>ERROR:UNKNOWN_COMMAND:\<close>; nothing else changes, and the buffer is empty again.
\<close>

theorem whitespace_line_is_dispatched:
  fixes s :: spinning and m :: manual
  shows
  "(commandBuffer s = [] \<and> (nl = CHR 0x0A \<or> nl = CHR 0x0D) \<longrightarrow>
      processSerialCommands e [nl] s = Inr s) \<and>
   (commandBuffer s = [] \<and> ws \<noteq> [] \<and> list_all blank ws \<and> (nl = CHR 0x0A \<or> nl = CHR 0x0D) \<longrightarrow>
      processSerialCommands e (ws @ [nl]) s =
        Inr (s\<lparr>serialOut := serialOut s @ ''ERROR:UNKNOWN_COMMAND:'' @ crlf\<rparr>)) \<and>
   (commandBuffer m = [] \<and> (nl = CHR 0x0A \<or> nl = CHR 0x0D) \<longrightarrow>
      processSerialCommands_v23 e [nl] m = Inr m) \<and>
   (commandBuffer m = [] \<and> ws \<noteq> [] \<and> list_all blank ws \<and> (nl = CHR 0x0A \<or> nl = CHR 0x0D) \<longrightarrow>
      processSerialCommands_v23 e (ws @ [nl]) m =
        Inr (m\<lparr>serialOut := serialOut m @ ''ERROR:UNKNOWN_COMMAND:'' @ crlf\<rparr>))"
proof (intro conjI impI)
  assume a: "commandBuffer s = [] \<and> ws \<noteq> [] \<and> list_all blank ws \<and> (nl = CHR 0x0A \<or> nl = CHR 0x0D)"
  then have "processSerialCommands e (ws @ [nl]) s =
     Inr (s\<lparr>serialOut := serialOut s @ ''ERROR:UNKNOWN_COMMAND:'' @ crlf, commandBuffer := []\<rparr>)"
    by (intro blank_line) simp_all
  moreover have "s\<lparr>serialOut := x, commandBuffer := []\<rparr> = s\<lparr>serialOut := x\<rparr>" for x
    using a clear_empty_buffer[of "s\<lparr>serialOut := x\<rparr>"] by simp
  ultimately show "processSerialCommands e (ws @ [nl]) s =
        Inr (s\<lparr>serialOut := serialOut s @ ''ERROR:UNKNOWN_COMMAND:'' @ crlf\<rparr>)"
    by simp
next
  assume a: "commandBuffer m = [] \<and> ws \<noteq> [] \<and> list_all blank ws \<and> (nl = CHR 0x0A \<or> nl = CHR 0x0D)"
  then have "processSerialCommands_v23 e (ws @ [nl]) m =
     Inr (m\<lparr>serialOut := serialOut m @ ''ERROR:UNKNOWN_COMMAND:'' @ crlf, commandBuffer := []\<rparr>)"
    by (intro blank_line_v23) simp_all
  moreover have "m\<lparr>serialOut := x, commandBuffer := []\<rparr> = m\<lparr>serialOut := x\<rparr>" for x
    using a clear_empty_buffer[of "m\<lparr>serialOut := x\<rparr>"] by simp
  ultimately show "processSerialCommands_v23 e (ws @ [nl]) m =
        Inr (m\<lparr>serialOut := serialOut m @ ''ERROR:UNKNOWN_COMMAND:'' @ crlf\<rparr>)"
    by simp
qed auto

theorem whitespace_line_is_dispatched_witness:
  "processSerialCommands (at_time 1000) [CHR '' '', CHR 0x09, CHR 0x0A] booted =
     Inr (booted\<lparr>serialOut := serialOut booted @ ''ERROR:UNKNOWN_COMMAND:'' @ crlf\<rparr>) \<and>
   processSerialCommands (at_time 1000) [CHR 0x0D] booted = Inr booted \<and>
   processSerialCommands_v23 (at_time 1000) [CHR '' '', CHR 0x09, CHR 0x0A] booted_v23 =
     Inr (booted_v23\<lparr>serialOut := serialOut booted_v23 @ ''ERROR:UNKNOWN_COMMAND:'' @ crlf\<rparr>) \<and>
   processSerialCommands_v23 (at_time 1000) [CHR 0x0D] booted_v23 = Inr booted_v23"
proof -
  have b: "commandBuffer booted = []" "commandBuffer booted_v23 = []"
    by code_simp+
  have w: "list_all blank [CHR '' '', CHR 0x09]"
    by (simp add: blank_def isspace_def)
  from whitespace_line_is_dispatched[where s = booted and m = booted_v23 and nl = "CHR 0x0A"
      and ws = "[CHR '' '', CHR 0x09]" and e = "at_time 1000"]
    whitespace_line_is_dispatched[where s = booted and m = booted_v23 and nl = "CHR 0x0D"
      and e = "at_time 1000"] b w
  show ?thesis by simp
qed

theorem whitespace_line_counterexample:
  "commandBuffer booted = [] \<and>
   on_return serialOut (processSerialCommands (at_time 1000) (line ''   '') booted) =
     Some (serialOut booted @ ''ERROR:UNKNOWN_COMMAND:'' @ crlf) \<and>
   commandBuffer booted_v23 = [] \<and>
   on_return serialOut (processSerialCommands_v23 (at_time 1000) (line ''   '') booted_v23) =
     Some (serialOut booted_v23 @ ''ERROR:UNKNOWN_COMMAND:'' @ crlf)"
  by code_simp

subsection \<open>Claim C7: setting the speed while the motor is stopped\<close>

lemma map_long_percent:
  assumes "0 \<le> x" "x \<le> 100"
  shows "map_long x 0 100 0 255 = Inr (x * 255 div 100)"
proof -
  define q where "q = x * 255 div 100"
  have a: "to_long x = x" "to_long (x * 255) = x * 255"
    using assms by (simp_all add: to_long_id)
  have b: "c_div (x * 255) 100 = q"
    using assms by (simp add: c_div_nonneg q_def)
  have "q \<le> 25500 div 100"
    unfolding q_def using assms by (intro zdiv_mono1) simp_all
  moreover have "0 \<le> q"
    unfolding q_def using assms by (simp add: pos_imp_zdiv_nonneg_iff)
  ultimately have c: "to_long q = q"
    by (intro to_long_id) linarith+
  have d: "to_long 255 = 255" "to_long 100 = 100"
    by (simp_all add: to_long_def)
  have "map_long x 0 100 0 255 = Inr q"
    by (simp add: map_long_def a b c d)
  then show ?thesis by (simp only: q_def)
qed

lemma map_long_percent_to_int:
  assumes "0 \<le> x" "x \<le> 100"
  shows "to_int (x * 255 div 100) = x * 255 div 100"
proof -
  have "x * 255 div 100 \<le> 25500 div 100"
    using assms by (intro zdiv_mono1) simp_all
  moreover have "0 \<le> x * 255 div 100"
    using assms by (simp add: pos_imp_zdiv_nonneg_iff)
  ultimately show ?thesis by (intro to_int_id) linarith+
qed

lemma setMotorSpeed_stopped:
  assumes "motorState s = MOTOR_STOPPED"
  shows "setMotorSpeed speedPercent s =
     Inr (s\<lparr>serialOut := serialOut s @ ''MOTOR_SPEED_SET:'' @ show_int speedPercent @ ''% (PWM:'' @
            show_int (constrain speedPercent 0 100 * 255 div 100) @ '')'' @ crlf @
            ''STATUS:Motor stopped - use OPEN/CLOSE first'' @ crlf\<rparr>)"
proof -
  have c: "0 \<le> constrain speedPercent 0 100" "constrain speedPercent 0 100 \<le> 100"
    by (simp_all add: constrain_def)
  define pwm where "pwm = constrain speedPercent 0 100 * 255 div 100"
  have m: "map_long (constrain speedPercent 0 100) 0 100 0 255 = Inr pwm"
    unfolding pwm_def by (rule map_long_percent[OF c])
  have t: "to_int pwm = pwm"
    unfolding pwm_def by (rule map_long_percent_to_int[OF c])
  show ?thesis
    using assms unfolding pwm_def[symmetric]
    by (simp add: setMotorSpeed_def m t Let_def io_defs)
qed

lemma setMotorSpeed_v20_stopped:
  assumes "motorState d = MOTOR_STOPPED"
  shows "setMotorSpeed_v20 speed d =
     d\<lparr>motorSpeed := constrain speed 0 255,
       serialOut := serialOut d @ ''MOTOR_SPEED:'' @ show_int (constrain speed 0 255) @ crlf\<rparr>"
  using assms by (simp add: setMotorSpeed_v20_def Let_def io_defs)

text \<open>
  Claim C7, amended. The claim holds in version 2.1: with the motor stopped,
  \<open>setMotorSpeed\<close> changes nothing but the serial output (the \<open>MOTOR_SPEED_SET\<close> line and
  a status line), so no speed is kept for the next move. In version 2.0 it does not: with
  the motor stopped, \<open>setMotorSpeed\<close> leaves the drive output alone but stores the speed,
  constrained to 0..255, in \<open>motorSpeed\<close>, and the next \<open>openCurtain\<close> or
  \<open>closeCurtain\<close> drives the motor with it.
\<close>

theorem set_speed_while_stopped:
  fixes s :: spinning and d :: directional
  shows
  "(motorState s = MOTOR_STOPPED \<longrightarrow>
      setMotorSpeed speedPercent s =
        Inr (s\<lparr>serialOut := serialOut s @ ''MOTOR_SPEED_SET:'' @ show_int speedPercent @
               ''% (PWM:'' @ show_int (constrain speedPercent 0 100 * 255 div 100) @ '')'' @ crlf @
               ''STATUS:Motor stopped - use OPEN/CLOSE first'' @ crlf\<rparr>)) \<and>
   (motorState d = MOTOR_STOPPED \<longrightarrow>
      setMotorSpeed_v20 speed d =
        d\<lparr>motorSpeed := constrain speed 0 255,
          serialOut := serialOut d @ ''MOTOR_SPEED:'' @ show_int (constrain speed 0 255) @ crlf\<rparr>) \<and>
   (motorState d = MOTOR_STOPPED \<and> curtainPosition d \<noteq> POSITION_OPEN \<longrightarrow>
      motorPin (openCurtain_v20 e (setMotorSpeed_v20 speed d)) = constrain speed 0 255) \<and>
   (motorState d = MOTOR_STOPPED \<and> curtainPosition d \<noteq> POSITION_CLOSED \<longrightarrow>
      motorPin (closeCurtain_v20 e (setMotorSpeed_v20 speed d)) = constrain speed 0 255)"
  by (auto simp: setMotorSpeed_stopped setMotorSpeed_v20_stopped openCurtain_v20_def
      closeCurtain_v20_def Let_def io_defs)

theorem set_speed_while_stopped_witness:
  "setMotorSpeed 40 booted =
     Inr (booted\<lparr>serialOut := serialOut booted @ ''MOTOR_SPEED_SET:40% (PWM:102)'' @ crlf @
            ''STATUS:Motor stopped - use OPEN/CLOSE first'' @ crlf\<rparr>) \<and>
   motorSpeed (setMotorSpeed_v20 102 booted_v20) = 102 \<and>
   motorPin (openCurtain_v20 (at_time 1000) (setMotorSpeed_v20 102 booted_v20)) = 102"
proof -
  have b: "motorState booted = MOTOR_STOPPED" "motorState booted_v20 = MOTOR_STOPPED"
    "curtainPosition booted_v20 \<noteq> POSITION_OPEN"
    by code_simp+
  have c: "show_int 40 = ''40''" "show_int (constrain 40 0 100 * 255 div 100) = ''102''"
    "constrain 102 0 255 = 102"
    by (simp_all add: show_int_def show_digits.simps constrain_def)
  note t = set_speed_while_stopped[where s = booted and d = booted_v20 and speedPercent = 40
      and speed = 102 and e = "at_time 1000"]
  from t[THEN conjunct1] b(1)
  have A: "setMotorSpeed 40 booted =
     Inr (booted\<lparr>serialOut := serialOut booted @ ''MOTOR_SPEED_SET:40% (PWM:102)'' @ crlf @
            ''STATUS:Motor stopped - use OPEN/CLOSE first'' @ crlf\<rparr>)"
    by (simp add: c constrain_def show_int_def show_digits.simps)
  from t[THEN conjunct2, THEN conjunct1] b(2)
  have "setMotorSpeed_v20 102 booted_v20 =
     booted_v20\<lparr>motorSpeed := 102, serialOut := serialOut booted_v20 @ ''MOTOR_SPEED:102'' @ crlf\<rparr>"
    by (simp add: c show_int_def show_digits.simps)
  then have B: "motorSpeed (setMotorSpeed_v20 102 booted_v20) = 102"
    by simp
  from t[THEN conjunct2, THEN conjunct2, THEN conjunct1] b(2,3)
  have C: "motorPin (openCurtain_v20 (at_time 1000) (setMotorSpeed_v20 102 booted_v20)) = 102"
    by (simp add: c)
  show ?thesis by (rule conjI[OF A conjI[OF B C]])
qed

theorem set_speed_is_stored_counterexample:
  "motorState booted_v20 = MOTOR_STOPPED \<and> motorSpeed booted_v20 = 255 \<and>
   on_return motorSpeed (processCommand_v20 (at_time 1000) ''SET_SPEED:40'' booted_v20) = Some 102 \<and>
   on_return motorState (processCommand_v20 (at_time 1000) ''SET_SPEED:40'' booted_v20) =
     Some MOTOR_STOPPED \<and>
   on_return motorPin
     (run_v20 [(1000, at_time 1000, line ''SET_SPEED:40'' @ line ''OPEN_CURTAIN'')] booted_v20) =
     Some 102 \<and>
   on_return motorPin (run_v20 [(1000, at_time 1000, line ''OPEN_CURTAIN'')] booted_v20) = Some 255"
  by code_simp

subsection \<open>Claim C8: motor commands outside manual mode (version 2.3)\<close>

lemma map_long_100_returns: "\<exists>r. map_long x 0 100 0 255 = Inr r"
  by (simp add: map_long_def to_long_def)

lemma setMotorSpeedManual_rejected:
  "\<not> manualMode m \<Longrightarrow>
   setMotorSpeedManual speed m = m\<lparr>serialOut := serialOut m @ ''ERROR:NOT_IN_MANUAL_MODE'' @ crlf\<rparr>"
  by (simp add: setMotorSpeedManual_def io_defs)

lemma processCommand_v23_set_speed:
  assumes "\<not> manualMode m" "params \<noteq> []" "toUpperCase (trim command) = ''SET_SPEED:'' @ params"
  shows "processCommand_v23 e command m =
     Inr (m\<lparr>serialOut := serialOut m @ ''ERROR:NOT_IN_MANUAL_MODE'' @ crlf\<rparr>)"
proof -
  obtain r where r: "map_long (to_int (toInt params)) 0 100 0 255 = Inr r"
    using map_long_100_returns by blast
  show ?thesis
    using assms(1,2) r
    by (simp add: processCommand_v23_def assms(3) indexOf_def substring_def substring_from_def
        Let_def setMotorSpeedManual_rejected)
qed

text \<open>
  Claim C8. In version 2.3, in every state in which the sketch is not in manual mode, a
  command line that reads \<open>OPEN_CURTAIN\<close>, \<open>CLOSE_CURTAIN\<close> or \<open>SET_SPEED:\<close> with a
  parameter (in any letter case, with white space around it) is answered by
  \<open>ERROR:NOT_IN_MANUAL_MODE\<close>, and nothing but the serial output changes.
\<close>

theorem motor_commands_rejected_outside_manual_mode:
  "\<not> manualMode m \<and> toUpperCase (trim command) = cmd \<and>
   (cmd = ''OPEN_CURTAIN'' \<or> cmd = ''CLOSE_CURTAIN'' \<or>
    (\<exists>params. params \<noteq> [] \<and> cmd = ''SET_SPEED:'' @ params)) \<longrightarrow>
   processCommand_v23 e command m =
     Inr (m\<lparr>serialOut := serialOut m @ ''ERROR:NOT_IN_MANUAL_MODE'' @ crlf\<rparr>)"
proof (intro impI, elim conjE disjE exE)
  assume "\<not> manualMode m" "toUpperCase (trim command) = cmd" "cmd = ''OPEN_CURTAIN''"
  then show "processCommand_v23 e command m =
     Inr (m\<lparr>serialOut := serialOut m @ ''ERROR:NOT_IN_MANUAL_MODE'' @ crlf\<rparr>)"
    by (simp add: processCommand_v23_def indexOf_def io_defs)
next
  assume "\<not> manualMode m" "toUpperCase (trim command) = cmd" "cmd = ''CLOSE_CURTAIN''"
  then show "processCommand_v23 e command m =
     Inr (m\<lparr>serialOut := serialOut m @ ''ERROR:NOT_IN_MANUAL_MODE'' @ crlf\<rparr>)"
    by (simp add: processCommand_v23_def indexOf_def io_defs)
next
  fix params
  assume "\<not> manualMode m" "toUpperCase (trim command) = cmd" "params \<noteq> []"
    "cmd = ''SET_SPEED:'' @ params"
  then show "processCommand_v23 e command m =
     Inr (m\<lparr>serialOut := serialOut m @ ''ERROR:NOT_IN_MANUAL_MODE'' @ crlf\<rparr>)"
    by (intro processCommand_v23_set_speed) simp_all
qed

theorem motor_commands_rejected_outside_manual_mode_witness:
  "\<not> manualMode booted_v23 \<and>
   processCommand_v23 (at_time 1000) ''open_curtain'' booted_v23 =
     Inr (booted_v23\<lparr>serialOut := serialOut booted_v23 @ ''ERROR:NOT_IN_MANUAL_MODE'' @ crlf\<rparr>) \<and>
   processCommand_v23 (at_time 1000) '' Close_Curtain '' booted_v23 =
     Inr (booted_v23\<lparr>serialOut := serialOut booted_v23 @ ''ERROR:NOT_IN_MANUAL_MODE'' @ crlf\<rparr>) \<and>
   processCommand_v23 (at_time 1000) ''SET_SPEED:80'' booted_v23 =
     Inr (booted_v23\<lparr>serialOut := serialOut booted_v23 @ ''ERROR:NOT_IN_MANUAL_MODE'' @ crlf\<rparr>)"
proof -
  have m: "\<not> manualMode booted_v23"
    by code_simp
  have p: "toUpperCase (trim ''open_curtain'') = ''OPEN_CURTAIN''"
    "toUpperCase (trim '' Close_Curtain '') = ''CLOSE_CURTAIN''"
    "toUpperCase (trim ''SET_SPEED:80'') = ''SET_SPEED:'' @ ''80''"
    by (simp_all add: parse_defs)
  from motor_commands_rejected_outside_manual_mode
        [where m = booted_v23 and command = "''open_curtain''" and cmd = "''OPEN_CURTAIN''"
           and e = "at_time 1000"]
    motor_commands_rejected_outside_manual_mode
        [where m = booted_v23 and command = "'' Close_Curtain ''" and cmd = "''CLOSE_CURTAIN''"
           and e = "at_time 1000"]
    motor_commands_rejected_outside_manual_mode
        [where m = booted_v23 and command = "''SET_SPEED:80''" and cmd = "''SET_SPEED:'' @ ''80''"
           and e = "at_time 1000"]
    m p
  show ?thesis by auto
qed

subsection \<open>Claim C9: reset, then boot\<close>

lemma prefill_keeps:
  "eeprom (prefill i rs s) = eeprom s" "serialOut (prefill i rs s) = serialOut s"
  "lightMin (prefill i rs s) = lightMin s" "lightMax (prefill i rs s) = lightMax s"
  "isCalibrated (prefill i rs s) = isCalibrated s"
  by (induction rs arbitrary: i s; simp)+

lemma prefill_v23_keeps:
  "eeprom (prefill_v23 i rs m) = eeprom m" "serialOut (prefill_v23 i rs m) = serialOut m"
  "openThreshold (prefill_v23 i rs m) = openThreshold m"
  "closeThreshold (prefill_v23 i rs m) = closeThreshold m"
  "autoMode (prefill_v23 i rs m) = autoMode m" "manualMode (prefill_v23 i rs m) = manualMode m"
  by (induction rs arbitrary: i m; simp)+

lemma setup_v21_not_found:
  assumes "rom EEPROM_ADDR_CALIBRATED \<noteq> EEPROM_MAGIC_NUMBER"
  shows "lightMin (setup_v21 rom readings) = 50" "lightMax (setup_v21 rom readings) = 950"
    "\<not> isCalibrated (setup_v21 rom readings)"
    "serialOut (setup_v21 rom readings) =
       ''CALIBRATION:NOT_FOUND'' @ crlf @
       ''READY:Arduino Curtain Control v2.1 (Spinning Motor)'' @ crlf @
       ''CALIBRATION:NO,MIN:50,MAX:950'' @ crlf @
       ''INITIAL_LIGHT:'' @ show_int (lightAverage (setup_v21 rom readings)) @ crlf"
  using assms
  by (simp_all add: setup_v21_def loadCalibration_def Let_def io_defs prefill_keeps initial_def
      LIGHT_MIN_DEFAULT_def LIGHT_MAX_DEFAULT_def show_int_def show_digits.simps)

lemma setup_v23_not_found:
  assumes "rom EEPROM_ADDR_AUTO_MODE \<noteq> EEPROM_MAGIC_NUMBER_v23"
  shows "openThreshold (setup_v23 rom readings) = 300" "closeThreshold (setup_v23 rom readings) = 700"
    "autoMode (setup_v23 rom readings)" "\<not> manualMode (setup_v23 rom readings)"
    "serialOut (setup_v23 rom readings) =
       ''SETTINGS:NOT_FOUND_USING_DEFAULTS'' @ crlf @
       ''READY:Arduino Curtain Control v2.3 (Enhanced Control)'' @ crlf @
       ''MODE:AUTO'' @ crlf @ ''OPEN_THRESHOLD:300'' @ crlf @ ''CLOSE_THRESHOLD:700'' @ crlf @
       ''INITIAL_LIGHT:'' @ show_int (lightAverage (setup_v23 rom readings)) @ crlf"
  using assms
  by (simp_all add: setup_v23_def loadSettings_def Let_def io_defs prefill_v23_keeps initial_v23_def
      show_int_def show_digits.simps)

text \<open>
  Claim C9. In every state, \<open>RESET_CALIBRATION\<close> (version 2.1) and \<open>RESET_SETTINGS\<close>
  (version 2.3) restore the hard-coded defaults in memory and write one byte of the
  EEPROM, the magic byte, to 0; and \<open>setup()\<close> on the EEPROM they leave finds no record,
  whatever readings the sensor gives: the sketch starts with exactly the defaults, and says
  so.
\<close>

theorem reset_then_boot_gives_defaults:
  fixes s :: spinning and m :: manual
  shows
  "resetCalibration s =
     s\<lparr>lightMin := 50, lightMax := 950, isCalibrated := False,
       eeprom := (eeprom s)(EEPROM_ADDR_CALIBRATED := 0),
       serialOut := serialOut s @ ''CALIBRATION:RESET'' @ crlf\<rparr> \<and>
   processCommand e ''RESET_CALIBRATION'' s = Inr (resetCalibration s) \<and>
   lightMin (setup_v21 (eeprom (resetCalibration s)) readings) = 50 \<and>
   lightMax (setup_v21 (eeprom (resetCalibration s)) readings) = 950 \<and>
   isCalibrated (setup_v21 (eeprom (resetCalibration s)) readings) = False \<and>
   serialOut (setup_v21 (eeprom (resetCalibration s)) readings) =
     ''CALIBRATION:NOT_FOUND'' @ crlf @
     ''READY:Arduino Curtain Control v2.1 (Spinning Motor)'' @ crlf @
     ''CALIBRATION:NO,MIN:50,MAX:950'' @ crlf @
     ''INITIAL_LIGHT:'' @ show_int (lightAverage (setup_v21 (eeprom (resetCalibration s)) readings)) @
     crlf \<and>
   resetSettings m =
     m\<lparr>openThreshold := 300, closeThreshold := 700, autoMode := True, manualMode := False,
       eeprom := (eeprom m)(EEPROM_ADDR_AUTO_MODE := 0),
       serialOut := serialOut m @ ''SETTINGS:RESET'' @ crlf\<rparr> \<and>
   processCommand_v23 e ''RESET_SETTINGS'' m = Inr (resetSettings m) \<and>
   openThreshold (setup_v23 (eeprom (resetSettings m)) readings) = 300 \<and>
   closeThreshold (setup_v23 (eeprom (resetSettings m)) readings) = 700 \<and>
   autoMode (setup_v23 (eeprom (resetSettings m)) readings) = True \<and>
   manualMode (setup_v23 (eeprom (resetSettings m)) readings) = False \<and>
   serialOut (setup_v23 (eeprom (resetSettings m)) readings) =
     ''SETTINGS:NOT_FOUND_USING_DEFAULTS'' @ crlf @
     ''READY:Arduino Curtain Control v2.3 (Enhanced Control)'' @ crlf @
     ''MODE:AUTO'' @ crlf @ ''OPEN_THRESHOLD:300'' @ crlf @ ''CLOSE_THRESHOLD:700'' @ crlf @
     ''INITIAL_LIGHT:'' @ show_int (lightAverage (setup_v23 (eeprom (resetSettings m)) readings)) @
     crlf"
proof -
  have r: "resetCalibration s =
     s\<lparr>lightMin := 50, lightMax := 950, isCalibrated := False,
       eeprom := (eeprom s)(EEPROM_ADDR_CALIBRATED := 0),
       serialOut := serialOut s @ ''CALIBRATION:RESET'' @ crlf\<rparr>"
    by (simp add: resetCalibration_def Let_def io_defs LIGHT_MIN_DEFAULT_def LIGHT_MAX_DEFAULT_def)
  have r23: "resetSettings m =
     m\<lparr>openThreshold := 300, closeThreshold := 700, autoMode := True, manualMode := False,
       eeprom := (eeprom m)(EEPROM_ADDR_AUTO_MODE := 0),
       serialOut := serialOut m @ ''SETTINGS:RESET'' @ crlf\<rparr>"
    by (simp add: resetSettings_def Let_def io_defs)
  have c: "processCommand e ''RESET_CALIBRATION'' s = Inr (resetCalibration s)"
    by (simp add: processCommand_def parse_defs)
  have c23: "processCommand_v23 e ''RESET_SETTINGS'' m = Inr (resetSettings m)"
    by (simp add: processCommand_v23_def parse_defs)
  have m: "eeprom (resetCalibration s) EEPROM_ADDR_CALIBRATED \<noteq> EEPROM_MAGIC_NUMBER"
    by (simp add: r EEPROM_MAGIC_NUMBER_def)
  have m23: "eeprom (resetSettings m) EEPROM_ADDR_AUTO_MODE \<noteq> EEPROM_MAGIC_NUMBER_v23"
    by (simp add: r23 EEPROM_MAGIC_NUMBER_v23_def)
  show ?thesis
    using setup_v21_not_found[where rom = "eeprom (resetCalibration s)" and readings = readings, OF m]
      setup_v23_not_found[where rom = "eeprom (resetSettings m)" and readings = readings, OF m23]
    by (intro conjI r r23 c c23) simp_all
qed

theorem reset_then_boot_gives_defaults_witness:
  "isCalibrated (setup_v21 calibrated_rom (replicate 10 500)) \<and>
   lightMin (setup_v21 calibrated_rom (replicate 10 500)) = 100 \<and>
   lightMax (setup_v21 calibrated_rom (replicate 10 500)) = 900 \<and>
   eeprom (resetCalibration (setup_v21 calibrated_rom (replicate 10 500))) 4 = 0 \<and>
   eeprom (resetCalibration (setup_v21 calibrated_rom (replicate 10 500))) 0 = 0x64 \<and>
   eeprom (resetCalibration (setup_v21 calibrated_rom (replicate 10 500))) 2 = 0x84 \<and>
   lightMin (setup_v21 (eeprom (resetCalibration (setup_v21 calibrated_rom (replicate 10 500))))
               (replicate 10 500)) = 50 \<and>
   lightMax (setup_v21 (eeprom (resetCalibration (setup_v21 calibrated_rom (replicate 10 500))))
               (replicate 10 500)) = 950 \<and>
   isCalibrated (setup_v21 (eeprom (resetCalibration (setup_v21 calibrated_rom (replicate 10 500))))
               (replicate 10 500)) = False"
proof -
  let ?s = "setup_v21 calibrated_rom (replicate 10 500)"
  let ?b = "setup_v21 (eeprom (resetCalibration ?s)) (replicate 10 500)"
  have a: "isCalibrated ?s" "lightMin ?s = 100" "lightMax ?s = 900"
    "eeprom (resetCalibration ?s) 4 = 0" "eeprom (resetCalibration ?s) 0 = 0x64"
    "eeprom (resetCalibration ?s) 2 = 0x84"
    by code_simp+
  note t = reset_then_boot_gives_defaults[where s = ?s and readings = "replicate 10 500"
      and e = "at_time 1000" and m = booted_v23]
  have b: "lightMin ?b = 50" "lightMax ?b = 950" "isCalibrated ?b = False"
    using t by blast+
  from a b show ?thesis by (intro conjI)
qed

end
